theory Spec2Isabelle
  imports Main
begin

section \<open>The migration runner of foxglove (\<^verbatim>\<open>foxglove/db/migrations.py\<close>)\<close>

text \<open>
  The module has two functions, \<^verbatim>\<open>run_migrations\<close> and \<^verbatim>\<open>run_patch\<close>. Both are
  coroutines that talk to a PostgreSQL connection, write to a logger and (the first one)
  assign the module-level attribute \<^verbatim>\<open>glove.pg\<close>. The embedding threads all of that
  through an explicit state: a world that holds the committed database, the log, the
  calls made on the connection and \<^verbatim>\<open>glove.pg\<close>, and beside it the working copy of the
  database that the open transaction sees. An exception is a value of type \<open>fault\<close>,
  and a function that can raise returns a sum with the fault on the left.
\<close>

subsection \<open>Exceptions\<close>

text \<open>
  Python's \<^verbatim>\<open>except C\<close> catches the instances of \<open>C\<close> and of its subclasses. The classes
  below are the ones that occur; \<open>mro\<close> lists a class with its ancestors.
  \<^verbatim>\<open>KeyboardInterrupt\<close>, \<^verbatim>\<open>SystemExit\<close> and \<^verbatim>\<open>CancelledError\<close> derive from
  \<^verbatim>\<open>BaseException\<close> directly, not from \<^verbatim>\<open>Exception\<close>.
\<close>

datatype exc_class =
    BaseException | Exception
  | KeyboardInterrupt | SystemExit | CancelledError
  | ValueError | TypeError | RuntimeError
  | PostgresError | LockNotAvailableError | UndefinedTableError
  | StringDataRightTruncationError | NotNullViolationError

fun mro :: "exc_class \<Rightarrow> exc_class list" where
  "mro BaseException = [BaseException]"
| "mro Exception = [Exception, BaseException]"
| "mro KeyboardInterrupt = [KeyboardInterrupt, BaseException]"
| "mro SystemExit = [SystemExit, BaseException]"
| "mro CancelledError = [CancelledError, BaseException]"
| "mro ValueError = [ValueError, Exception, BaseException]"
| "mro TypeError = [TypeError, Exception, BaseException]"
| "mro RuntimeError = [RuntimeError, Exception, BaseException]"
| "mro PostgresError = [PostgresError, Exception, BaseException]"
| "mro LockNotAvailableError = [LockNotAvailableError, PostgresError, Exception, BaseException]"
| "mro UndefinedTableError = [UndefinedTableError, PostgresError, Exception, BaseException]"
| "mro StringDataRightTruncationError =
     [StringDataRightTruncationError, PostgresError, Exception, BaseException]"
| "mro NotNullViolationError =
     [NotNullViolationError, PostgresError, Exception, BaseException]"

datatype fault = Fault (exc_type: exc_class) (exc_msg: string)

definition isinstance :: "fault \<Rightarrow> exc_class \<Rightarrow> bool" where
  "isinstance e c = (c \<in> set (mro (exc_type e)))"

subsection \<open>Log records\<close>

datatype log_level = DEBUG | INFO | WARNING | ERROR

record log_record =
  level :: log_level
  message :: string
  exc_info :: "fault option"

definition log_msg :: "log_level \<Rightarrow> string \<Rightarrow> log_record" where
  "log_msg l m = \<lparr>level = l, message = m, exc_info = None\<rparr>"

text \<open>\<^verbatim>\<open>logger.exception(msg)\<close> logs at level ERROR with the exception being handled.\<close>

definition log_exception :: "string \<Rightarrow> fault \<Rightarrow> log_record" where
  "log_exception m e = \<lparr>level = ERROR, message = m, exc_info = Some e\<rparr>"

subsection \<open>Values, truthiness and formatting\<close>

text \<open>
  What a call can return, as far as the runner looks at it: \<^verbatim>\<open>None\<close>, a boolean, an
  integer, a string, or a coroutine object. A coroutine object holds a computation that
  has not started; run on the application data of the transaction it returns a value or
  raises, leaves the data changed, and may have logged. The \<open>'d\<close> is the type of the
  application data.
\<close>

datatype 'd pyval =
    PyNone | PyBool bool | PyInt int | PyStr string
  | PyCoroutine "'d \<Rightarrow> (fault + 'd pyval) \<times> 'd \<times> log_record list"

text \<open>
  An attribute typed \<^verbatim>\<open>Optional[str]\<close> is a \<open>string option\<close>. It is falsy when it is
  \<^verbatim>\<open>None\<close> or the empty string; \<^verbatim>\<open>x or '-'\<close> is \<open>x\<close> when \<open>x\<close> is truthy and
  \<^verbatim>\<open>'-'\<close> otherwise.
\<close>

fun truthy :: "string option \<Rightarrow> bool" where
  "truthy None = False"
| "truthy (Some s) = (s \<noteq> [])"

fun or_dash :: "string option \<Rightarrow> string" where
  "or_dash None = ''-''"
| "or_dash (Some s) = (if s = [] then ''-'' else s)"

definition digit_char :: "nat \<Rightarrow> char" where
  "digit_char d = char_of (48 + d)"

fun str_nat :: "nat \<Rightarrow> string" where
  "str_nat n = (if n < 10 then [digit_char n] else str_nat (n div 10) @ [digit_char (n mod 10)])"

declare str_nat.simps [simp del]

definition str_int :: "int \<Rightarrow> string" where
  "str_int i = (if i < 0 then CHR ''-'' # str_nat (nat (- i)) else str_nat (nat i))"

text \<open>
  \<^verbatim>\<open>'%s' % v\<close>. The text for a coroutine object carries the name of its function
  and an address in Python; the model writes neither.
\<close>

fun py_str :: "'d pyval \<Rightarrow> string" where
  "py_str PyNone = ''None''"
| "py_str (PyBool b) = (if b then ''True'' else ''False'')"
| "py_str (PyInt i) = str_int i"
| "py_str (PyStr s) = s"
| "py_str (PyCoroutine co) = ''<coroutine object>''"

text \<open>
  \<^verbatim>\<open>'{:-^50}'.format(s)\<close>: \<open>s\<close> centred in a field of 50 characters filled with
  \<^verbatim>\<open>-\<close>; when the padding is odd the extra character goes to the right, and a text of
  50 characters or more is left as it is.
\<close>

definition banner :: "string \<Rightarrow> string" where
  "banner s =
     (let pad = 50 - length s; left = pad div 2; right = pad - left
      in replicate left CHR ''-'' @ s @ replicate right CHR ''-'')"

subsection \<open>Patches\<close>

text \<open>
  A patch body is called with four keyword arguments. It works on the application's part
  of the database through the connection it is given, that is, inside the runner's
  transaction, and it may log. It either returns a value or raises; what it has changed
  before raising is still in the transaction. Bodies are taken to terminate, to leave the
  \<^verbatim>\<open>migrations\<close> table alone and not to end the transaction themselves.
\<close>

datatype conn = BuildPgConnection (dsn: string)

record kwargs =
  conn :: conn
  live :: bool
  args :: "(string \<times> string) list"
  logger :: string

type_synonym 'd body = "kwargs \<Rightarrow> 'd \<Rightarrow> (fault + 'd pyval) \<times> 'd \<times> log_record list"

text \<open>
  \<^verbatim>\<open>patch.func\<close> is a plain function (\<^verbatim>\<open>def\<close>) or a coroutine function
  (\<^verbatim>\<open>async def\<close>), with its \<^verbatim>\<open>__name__\<close> and its body. A plain callable that
  hands back a coroutine, such as an \<^verbatim>\<open>async def\<close> under a decorator that is itself a
  plain function, is a \<open>Def\<close> whose body returns a \<open>PyCoroutine\<close>.
\<close>

datatype 'd py_function =
    Def (dunder_name: string) (body_of: "'d body")
  | AsyncDef (dunder_name: string) (body_of: "'d body")

text \<open>\<^verbatim>\<open>asyncio.iscoroutinefunction\<close>\<close>

fun iscoroutinefunction :: "'d py_function \<Rightarrow> bool" where
  "iscoroutinefunction (Def n b) = False"
| "iscoroutinefunction (AsyncDef n b) = True"

text \<open>
  \<^verbatim>\<open>f(**kwargs)\<close>. Calling a plain function runs its body. Calling a coroutine
  function runs nothing: it returns a coroutine object for the body.
\<close>

fun call :: "'d py_function \<Rightarrow> 'd body" where
  "call (Def n b) kw d = b kw d"
| "call (AsyncDef n b) kw d = (Inr (PyCoroutine (b kw)), d, [])"

text \<open>
  \<^verbatim>\<open>await v\<close>. Awaiting a coroutine object runs its computation to the end and gives
  what it returns or raises; awaiting any other value of the model raises
  \<^verbatim>\<open>TypeError\<close>.
\<close>

fun await :: "'d pyval \<Rightarrow> 'd \<Rightarrow> (fault + 'd pyval) \<times> 'd \<times> log_record list" where
  "await (PyCoroutine co) d = co d"
| "await v d = (Inl (Fault TypeError ''object can not be used in await expression''), d, [])"

text \<open>
  \<^verbatim>\<open>await f(**kwargs)\<close>: the call first; when it has not raised, the await of what it
  returned, on the data the call left.
\<close>

definition await_call :: "'d py_function \<Rightarrow> 'd body" where
  "await_call f kw d =
     (case call f kw d of
        (Inl e, d1, lines1) \<Rightarrow> (Inl e, d1, lines1)
      | (Inr v, d1, lines1) \<Rightarrow>
          (case await v d1 of (outcome, d2, lines2) \<Rightarrow> (outcome, d2, lines1 @ lines2)))"

record 'd Patch =
  func :: "'d py_function"
  auto_ref :: "string option"
  auto_ref_sql_section :: "string option"


record settings =
  pg_dsn :: string
  sql :: string

text \<open>
  \<^verbatim>\<open>get_sql_section(name, sql)\<close> is imported from \<^verbatim>\<open>foxglove.db.patches\<close>; the runner
  only calls it. It is a parameter of the model: a function that returns the text of the
  section or raises.
\<close>

type_synonym sql_section_provider = "string \<Rightarrow> string \<Rightarrow> fault + string"

subsection \<open>The database\<close>

text \<open>
  A row of the table \<^verbatim>\<open>migrations\<close>. The column \<^verbatim>\<open>ts\<close> is filled by the server's
  clock and is left out. The four text columns carry the uniqueness constraint.
\<close>

record ledger_row =
  row_id :: nat
  row_patch_name :: string
  row_auto_ref :: string
  row_sql_section_name :: string
  row_sql_section_content :: string

definition identity :: "ledger_row \<Rightarrow> string \<times> string \<times> string \<times> string" where
  "identity r =
     (row_patch_name r, row_auto_ref r, row_sql_section_name r, row_sql_section_content r)"

text \<open>
  The contents of a database: the table \<^verbatim>\<open>migrations\<close>, which may not exist, and the
  application's data, which patch bodies work on.
\<close>

record 'd database =
  migrations :: "ledger_row list option"
  app :: 'd

datatype pg_pool = PgPool string | DummyPgPool conn

datatype statement =
    CreateTableIfNotExistsMigrations
  | LockTableMigrationsNowait
  | InsertIntoMigrationsOnConflictDoNothingReturningId

definition migrations_table :: statement where
  "migrations_table = CreateTableIfNotExistsMigrations"

datatype db_call =
    Connect string
  | TrStart
  | Execute statement
  | Fetchval statement "string option list"
  | TrCommit
  | TrRollback
  | Close

text \<open>
  Everything outside the open transaction: what is committed, the sequence behind the
  \<^verbatim>\<open>serial\<close> column (sequences are not rolled back), whether another transaction holds
  the lock on \<^verbatim>\<open>migrations\<close>, the attribute \<^verbatim>\<open>glove.pg\<close> as
  \<^verbatim>\<open>getattr(glove, 'pg', None)\<close> reads it, the log, and the calls the runner has made on
  the connection provider.
\<close>

record 'd world =
  committed :: "'d database"
  migrations_id_seq :: nat
  lock_held_elsewhere :: bool
  glove_pg :: "pg_pool option"
  log :: "log_record list"
  db_calls :: "db_call list"

definition logged :: "log_record \<Rightarrow> 'd world \<Rightarrow> 'd world" where
  "logged r w = w\<lparr>log := log w @ [r]\<rparr>"

definition called :: "db_call \<Rightarrow> 'd world \<Rightarrow> 'd world" where
  "called c w = w\<lparr>db_calls := db_calls w @ [c]\<rparr>"

text \<open>
  \<^verbatim>\<open>conn.execute(migrations_table)\<close>: creates the table, with a new sequence, when it is
  not there. The working copy \<open>tx\<close> is what the open transaction sees.
\<close>

definition execute_migrations_table :: "'d database \<Rightarrow> 'd world \<Rightarrow> 'd database \<times> 'd world" where
  "execute_migrations_table tx w =
     (let w1 = called (Execute migrations_table) w
      in case migrations tx of
           None \<Rightarrow> (tx\<lparr>migrations := Some []\<rparr>, w1\<lparr>migrations_id_seq := 0\<rparr>)
         | Some rows \<Rightarrow> (tx, w1))"

text \<open>
  \<^verbatim>\<open>conn.execute('lock table migrations nowait')\<close>: raises at once when the lock is held
  by another transaction. \<open>None\<close> means that nothing was raised.
\<close>

definition execute_lock_table_nowait :: "'d database \<Rightarrow> 'd world \<Rightarrow> fault option \<times> 'd world" where
  "execute_lock_table_nowait tx w =
     (let w1 = called (Execute LockTableMigrationsNowait) w
      in case migrations tx of
           None \<Rightarrow> (Some (Fault UndefinedTableError ''relation migrations does not exist''), w1)
         | Some rows \<Rightarrow>
             if lock_held_elsewhere w
             then (Some (Fault LockNotAvailableError
                           ''could not obtain lock on relation migrations''), w1)
             else (None, w1))"

text \<open>
  The \<^verbatim>\<open>insert ... on conflict (...) do nothing returning id\<close> of the loop, with its four
  parameters. A null in a \<^verbatim>\<open>not null\<close> column and a text longer than a
  \<^verbatim>\<open>varchar(255)\<close> column raise. Otherwise a value is drawn from the sequence; the row
  is added and its id returned when no row has the same four columns, and nothing is
  added and \<open>None\<close> returned when one has.
\<close>

definition fetchval_insert ::
  "string \<Rightarrow> string option \<Rightarrow> string \<Rightarrow> string \<Rightarrow> 'd database \<Rightarrow> 'd world
     \<Rightarrow> (fault + nat option) \<times> 'd database \<times> 'd world" where
  "fetchval_insert pn ar sn sc tx w =
     (let w1 = called (Fetchval InsertIntoMigrationsOnConflictDoNothingReturningId
                         [Some pn, ar, Some sn, Some sc]) w
      in case migrations tx of
           None \<Rightarrow> (Inl (Fault UndefinedTableError ''relation migrations does not exist''), tx, w1)
         | Some rows \<Rightarrow>
            (case ar of
               None \<Rightarrow> (Inl (Fault NotNullViolationError
                              ''null value in column auto_ref violates not-null constraint''),
                         tx, w1)
             | Some a \<Rightarrow>
                 if 255 < length pn \<or> 255 < length a \<or> 255 < length sn
                 then (Inl (Fault StringDataRightTruncationError
                              ''value too long for type character varying(255)''), tx, w1)
                 else
                   let new_id = Suc (migrations_id_seq w1);
                       w2 = w1\<lparr>migrations_id_seq := new_id\<rparr>
                   in if (pn, a, sn, sc) \<in> set (map identity rows)
                      then (Inr None, tx, w2)
                      else (Inr (Some new_id),
                            tx\<lparr>migrations := Some (rows @
                               [\<lparr>row_id = new_id, row_patch_name = pn, row_auto_ref = a,
                                 row_sql_section_name = sn,
                                 row_sql_section_content = sc\<rparr>])\<rparr>,
                            w2)))"

subsection \<open>\<^verbatim>\<open>run_patch\<close>\<close>

definition logger_name :: string where
  "logger_name = ''foxglove.db.migrations''"

definition patch_kwargs :: "conn \<Rightarrow> bool \<Rightarrow> kwargs" where
  "patch_kwargs c lv =
     \<lparr>conn = c, live = lv, args = [(''__auto_migrations__'', ''true'')], logger = logger_name\<rparr>"

text \<open>
  The call runs on the application data of the transaction; what it logs goes to the
  log. It is awaited when \<^verbatim>\<open>patch.func\<close> is a coroutine function and only then. The \<^verbatim>\<open>try\<close> block holds the call and the logging of the result; the handler
  is \<^verbatim>\<open>except BaseException\<close>, and a fault that is no instance of it would leave the
  function, which is the \<open>Inl\<close> of the result.
\<close>

definition run_patch ::
  "conn \<Rightarrow> 'd Patch \<Rightarrow> string \<Rightarrow> bool \<Rightarrow> 'd database \<Rightarrow> 'd world
     \<Rightarrow> (fault + bool) \<times> 'd database \<times> 'd world" where
  "run_patch c patch name lv tx w =
     (let kw = patch_kwargs c lv;
          w1 = logged (log_msg INFO (banner ('' running '' @ name @ '' ''))) w;
          (outcome, d, lines) =
             (if iscoroutinefunction (func patch)
              then await_call (func patch) kw (app tx)
              else call (func patch) kw (app tx));
          tx1 = tx\<lparr>app := d\<rparr>;
          w2 = w1\<lparr>log := log w1 @ lines\<rparr>
      in case outcome of
           Inr result \<Rightarrow>
             (let w3 = (if result \<noteq> PyNone
                        then logged (log_msg INFO (''result: '' @ py_str result)) w2 else w2)
              in (Inr True, tx1,
                  logged (log_msg INFO (banner ('' '' @ name @ '' succeeded ''))) w3))
         | Inl e \<Rightarrow>
             if isinstance e BaseException
             then (Inr False, tx1,
                   logged (log_exception (''Error running '' @ dunder_name (func patch)
                                            @ '' migration patch'') e)
                     (logged (log_msg INFO (banner ('' '' @ name @ '' failed ''))) w2))
             else (Inl e, tx1, w2))"

subsection \<open>\<^verbatim>\<open>run_migrations\<close>\<close>

text \<open>
  How the \<^verbatim>\<open>for\<close> loop is left: it runs to its end with the two counters and the
  transaction's state, it returns from the function, or an exception leaves it.
\<close>

datatype 'd loop_exit = Finished nat nat "'d database" | Returned nat | Raised fault

definition resolve_section :: "sql_section_provider \<Rightarrow> settings \<Rightarrow> 'd Patch \<Rightarrow> fault + string option" where
  "resolve_section get_sql_section st patch =
     (case auto_ref_sql_section patch of
        None \<Rightarrow> Inr None
      | Some name \<Rightarrow>
          if truthy (Some name)
          then (case get_sql_section name (sql st) of
                  Inl e \<Rightarrow> Inl e | Inr content \<Rightarrow> Inr (Some content))
          else Inr None)"

text \<open>The check mark at the end of the live summary, U+2713 in UTF-8.\<close>

definition check_mark :: string where
  "check_mark = [char_of (226::nat), char_of (156::nat), char_of (147::nat)]"

fun patch_loop ::
  "sql_section_provider \<Rightarrow> settings \<Rightarrow> conn \<Rightarrow> bool \<Rightarrow> pg_pool option \<Rightarrow> 'd Patch list
     \<Rightarrow> nat \<Rightarrow> nat \<Rightarrow> 'd database \<Rightarrow> 'd world \<Rightarrow> 'd loop_exit \<times> 'd world" where
  "patch_loop gss st c lv default_pg [] count up_to_date tx w = (Finished count up_to_date tx, w)"
| "patch_loop gss st c lv default_pg (patch # rest) count up_to_date tx w =
     (let patch_name = dunder_name (func patch)
      in case resolve_section gss st patch of
           Inl e \<Rightarrow> (Raised e, w)
         | Inr sql_section_content \<Rightarrow>
            (case fetchval_insert patch_name (auto_ref patch)
                    (or_dash (auto_ref_sql_section patch)) (or_dash sql_section_content) tx w of
               (Inl e, tx1, w1) \<Rightarrow> (Raised e, w1)
             | (Inr None, tx1, w1) \<Rightarrow>
                 patch_loop gss st c lv default_pg rest count (up_to_date + 1) tx1 w1
             | (Inr (Some migration_id), tx1, w1) \<Rightarrow>
                (case run_patch c patch patch_name lv tx1 w1 of
                   (Inl e, tx2, w2) \<Rightarrow> (Raised e, w2)
                 | (Inr successful, tx2, w2) \<Rightarrow>
                     if \<not> successful
                     then (Returned 0,
                           (called TrRollback
                             (logged (log_msg WARNING
                                (''patch failed, rolling back all '' @ str_nat count
                                   @ '' migration patches in this session'')) w2))
                           \<lparr>glove_pg := default_pg\<rparr>)
                     else patch_loop gss st c lv default_pg rest (count + 1) up_to_date tx2 w2)))"

text \<open>
  \<^verbatim>\<open>async with AsyncPgContext(settings.pg_dsn) as conn\<close> opens a connection and closes
  it on every way out of the block. A transaction that is still open when the connection
  closes is discarded by the server; only \<^verbatim>\<open>tr.commit()\<close> writes the working copy to
  the committed database.
\<close>

definition run_migrations ::
  "sql_section_provider \<Rightarrow> settings \<Rightarrow> 'd Patch list \<Rightarrow> bool \<Rightarrow> 'd world
     \<Rightarrow> (fault + nat) \<times> 'd world" where
  "run_migrations gss st patches lv w =
     (let migration_patches = filter (\<lambda>p. truthy (auto_ref p)) patches
      in if migration_patches = [] then (Inr 0, w)
         else
           let c = BuildPgConnection (pg_dsn st);
               w1 = called TrStart (called (Connect (pg_dsn st)) w);
               (tx, w2) = execute_migrations_table (committed w1) w1
           in case execute_lock_table_nowait tx w2 of
                (Some e, w3) \<Rightarrow>
                  if isinstance e LockNotAvailableError
                  then (Inr 0,
                        called Close (called TrRollback
                          (logged (log_msg DEBUG
                             ''another transaction has locked migrations, skipping migrations here'')
                             w3)))
                  else (Inl e, called Close w3)
              | (None, w3) \<Rightarrow>
                  let default_pg = glove_pg w3;
                      w4 = w3\<lparr>glove_pg := Some (DummyPgPool c)\<rparr>;
                      w5 = logged (log_msg INFO
                             (''checking '' @ str_nat (length migration_patches)
                                @ '' migration patches...'')) w4
                  in (case patch_loop gss st c lv default_pg migration_patches 0 0 tx w5 of
                       (Raised e, w6) \<Rightarrow> (Inl e, called Close w6)
                     | (Returned n, w6) \<Rightarrow> (Inr n, called Close w6)
                     | (Finished count up_to_date tx1, w6) \<Rightarrow>
                         let w7 = w6\<lparr>glove_pg := default_pg\<rparr>
                         in if lv
                            then (Inr count,
                                  called Close
                                    (logged (log_msg INFO
                                       (str_nat count @ '' migration patches run, ''
                                          @ str_nat up_to_date @ '' already up to date ''
                                          @ check_mark))
                                       ((called TrCommit w7)\<lparr>committed := tx1\<rparr>)))
                            else (Inr count,
                                  called Close
                                    (logged (log_msg INFO
                                       (str_nat count @ '' migration patches run, ''
                                          @ str_nat up_to_date
                                          @ '' already up to date, not live rolling back''))
                                       (called TrRollback w7)))))"

subsection \<open>Vocabulary of the properties\<close>

text \<open>
  What \<^verbatim>\<open>run_patch\<close> logs after the body has ended: the result, when it is not
  \<^verbatim>\<open>None\<close>, and the closing banner; or the failure banner and the record of
  \<^verbatim>\<open>logger.exception\<close>.
\<close>

definition epilogue :: "string \<Rightarrow> string \<Rightarrow> fault + 'd pyval \<Rightarrow> log_record list" where
  "epilogue name fname outcome =
     (case outcome of
        Inr result \<Rightarrow>
          (if result \<noteq> PyNone then [log_msg INFO (''result: '' @ py_str result)] else [])
          @ [log_msg INFO (banner ('' '' @ name @ '' succeeded ''))]
      | Inl e \<Rightarrow>
          [log_msg INFO (banner ('' '' @ name @ '' failed '')),
           log_exception (''Error running '' @ fname @ '' migration patch'') e])"


text \<open>
  The patches that \<^verbatim>\<open>run_migrations\<close> looks at: those with a truthy \<^verbatim>\<open>auto_ref\<close>.
\<close>

definition eligible :: "'d Patch list \<Rightarrow> 'd Patch list" where
  "eligible patches = filter (\<lambda>p. truthy (auto_ref p)) patches"

text \<open>
  The four values that the loop passes to the insert for a patch, in the order of the
  columns; the last is the text of the section after \<^verbatim>\<open>or '-'\<close>.
\<close>

definition section_content :: "sql_section_provider \<Rightarrow> settings \<Rightarrow> 'd Patch \<Rightarrow> string" where
  "section_content gss st q =
     (case resolve_section gss st q of Inr content \<Rightarrow> or_dash content | Inl e \<Rightarrow> ''-'')"

definition patch_key ::
  "sql_section_provider \<Rightarrow> settings \<Rightarrow> 'd Patch \<Rightarrow> string \<times> string \<times> string \<times> string" where
  "patch_key gss st q =
     (dunder_name (func q), (case auto_ref q of Some a \<Rightarrow> a | None \<Rightarrow> []),
      or_dash (auto_ref_sql_section q), section_content gss st q)"

definition insert_call :: "sql_section_provider \<Rightarrow> settings \<Rightarrow> 'd Patch \<Rightarrow> db_call" where
  "insert_call gss st q =
     Fetchval InsertIntoMigrationsOnConflictDoNothingReturningId
       [Some (dunder_name (func q)), auto_ref q, Some (or_dash (auto_ref_sql_section q)),
        Some (section_content gss st q)]"

text \<open>
  The insert for a patch does not raise: its section, if it names one, is found, and its
  values fit the columns.
\<close>

definition recordable :: "sql_section_provider \<Rightarrow> settings \<Rightarrow> 'd Patch \<Rightarrow> bool" where
  "recordable gss st q =
     (\<not> isl (resolve_section gss st q) \<and> auto_ref q \<noteq> None
      \<and> length (dunder_name (func q)) \<le> 255
      \<and> (case auto_ref q of Some a \<Rightarrow> length a \<le> 255 | None \<Rightarrow> False)
      \<and> length (or_dash (auto_ref_sql_section q)) \<le> 255)"

text \<open>The identities recorded in a database; none when the table does not exist.\<close>

definition ledger_keys :: "'d database \<Rightarrow> (string \<times> string \<times> string \<times> string) set" where
  "ledger_keys tx = (case migrations tx of None \<Rightarrow> {} | Some rows \<Rightarrow> set (map identity rows))"

definition after_insert :: "sql_section_provider \<Rightarrow> settings \<Rightarrow> 'd Patch \<Rightarrow> 'd world \<Rightarrow> 'd world" where
  "after_insert gss st q w =
     w\<lparr>db_calls := db_calls w @ [insert_call gss st q],
       migrations_id_seq := Suc (migrations_id_seq w)\<rparr>"

definition running_banner :: "'d Patch \<Rightarrow> log_record" where
  "running_banner q = log_msg INFO (banner ('' running '' @ dunder_name (func q) @ '' ''))"

definition run_log :: "'d Patch \<Rightarrow> fault + 'd pyval \<Rightarrow> log_record list \<Rightarrow> log_record list" where
  "run_log q outcome lines =
     [running_banner q] @ lines
       @ epilogue (dunder_name (func q)) (dunder_name (func q)) outcome"

definition patch_failed_msg :: "nat \<Rightarrow> log_record" where
  "patch_failed_msg count =
     log_msg WARNING (''patch failed, rolling back all '' @ str_nat count
                        @ '' migration patches in this session'')"

text \<open>
  The body of a patch, called the way \<^verbatim>\<open>run_patch\<close> calls it, returns on every state of
  the application data, or raises on every state.
\<close>

definition passes :: "conn \<Rightarrow> bool \<Rightarrow> 'd Patch \<Rightarrow> bool" where
  "passes c lv q = (\<forall>d. \<not> isl (fst (body_of (func q) (patch_kwargs c lv) d)))"

definition fails :: "conn \<Rightarrow> bool \<Rightarrow> 'd Patch \<Rightarrow> bool" where
  "fails c lv q = (\<forall>d. isl (fst (body_of (func q) (patch_kwargs c lv) d)))"

text \<open>
  The bodies of the patches, run one after the other the way \<^verbatim>\<open>run_patch\<close> calls them,
  each on the application data the one before it left: they all return, and this is what
  \<^verbatim>\<open>run_patch\<close> logs for them, the lines of each body between its banners.
\<close>

fun all_return :: "conn \<Rightarrow> bool \<Rightarrow> 'd Patch list \<Rightarrow> 'd \<Rightarrow> bool" where
  "all_return c lv [] d = True"
| "all_return c lv (q # qs) d =
     (case body_of (func q) (patch_kwargs c lv) d of
        (outcome, d', lines) \<Rightarrow> \<not> isl outcome \<and> all_return c lv qs d')"

fun bodies_log :: "conn \<Rightarrow> bool \<Rightarrow> 'd Patch list \<Rightarrow> 'd \<Rightarrow> log_record list" where
  "bodies_log c lv [] d = []"
| "bodies_log c lv (q # qs) d =
     (case body_of (func q) (patch_kwargs c lv) d of
        (outcome, d', lines) \<Rightarrow> run_log q outcome lines @ bodies_log c lv qs d')"

text \<open>The calls made on the connection provider between two states of the world.\<close>

definition calls_during :: "'d world \<Rightarrow> 'd world \<Rightarrow> db_call list" where
  "calls_during w w' = drop (length (db_calls w)) (db_calls w')"

text \<open>The four calls with which every run that has something to do begins.\<close>

definition opening_calls :: "settings \<Rightarrow> db_call list" where
  "opening_calls st =
     [Connect (pg_dsn st), TrStart, Execute migrations_table, Execute LockTableMigrationsNowait]"

subsection \<open>The patches and the database of the repository's tests\<close>

text \<open>
  \<^verbatim>\<open>tests/test_patches.py\<close> runs a plain function that returns \<^verbatim>\<open>'hello'\<close>, a
  coroutine function of the same name that logs a line, and a coroutine function that
  raises \<^verbatim>\<open>ValueError('broken')\<close>, all with
  \<^verbatim>\<open>auto_ref='foobar'\<close>, on a database without the table. The application data of the
  examples is the number of rows of the table \<^verbatim>\<open>organisations\<close>, to which
  \<^verbatim>\<open>insert_org\<close> adds one.
\<close>

definition ok_patch :: "nat Patch" where
  "ok_patch =
     \<lparr>func = Def ''ok_patch'' (\<lambda>kw d. (Inr (PyStr ''hello''), d, [])),
      auto_ref = Some ''foobar'', auto_ref_sql_section = None\<rparr>"

definition logging_ok_patch :: "nat Patch" where
  "logging_ok_patch =
     \<lparr>func = AsyncDef ''ok_patch'' (\<lambda>kw d. (Inr PyNone, d, [log_msg INFO ''running ok_patch''])),
      auto_ref = Some ''foobar'', auto_ref_sql_section = None\<rparr>"

definition error_patch :: "nat Patch" where
  "error_patch =
     \<lparr>func = AsyncDef ''error_patch'' (\<lambda>kw d. (Inl (Fault ValueError ''broken''), d, [])),
      auto_ref = Some ''foobar'', auto_ref_sql_section = None\<rparr>"

definition insert_org :: "nat Patch" where
  "insert_org =
     \<lparr>func = AsyncDef ''insert_org'' (\<lambda>kw d. (Inr PyNone, Suc d, [])),
      auto_ref = Some ''orgs'', auto_ref_sql_section = None\<rparr>"

definition test_settings :: settings where
  "test_settings = \<lparr>pg_dsn = ''postgres://postgres@localhost:5432/foxglove_test'', sql = ''''\<rparr>"

definition no_sections :: sql_section_provider where
  "no_sections name text = Inl (Fault RuntimeError ''section not found'')"

definition wiped_db :: "nat world" where
  "wiped_db =
     \<lparr>committed = \<lparr>migrations = None, app = 0\<rparr>, migrations_id_seq = 0,
      lock_held_elsewhere = False, glove_pg = Some (PgPool ''app''), log = [], db_calls = []\<rparr>"

text \<open>
  The patches of a list are unrecorded in a database: their identities are pairwise
  distinct and none of them is in the table.
\<close>

definition unrecorded :: "sql_section_provider \<Rightarrow> settings \<Rightarrow> 'd Patch list \<Rightarrow> 'd database \<Rightarrow> bool" where
  "unrecorded gss st ps tx =
     (distinct (map (patch_key gss st) ps) \<and> (\<forall>q\<in>set ps. patch_key gss st q \<notin> ledger_keys tx))"


text \<open>
  The working copy and the world with which the loop starts when the lock was free, the
  messages of \<^verbatim>\<open>run_migrations\<close>, and what follows the loop.
\<close>

definition batch_db :: "'d world \<Rightarrow> 'd database" where
  "batch_db w =
     (case migrations (committed w) of
        None \<Rightarrow> (committed w)\<lparr>migrations := Some []\<rparr>
      | Some rows \<Rightarrow> committed w)"

definition checking_msg :: "nat \<Rightarrow> log_record" where
  "checking_msg n = log_msg INFO (''checking '' @ str_nat n @ '' migration patches...'')"

definition live_summary :: "nat \<Rightarrow> nat \<Rightarrow> log_record" where
  "live_summary count up_to_date =
     log_msg INFO (str_nat count @ '' migration patches run, '' @ str_nat up_to_date
                     @ '' already up to date '' @ check_mark)"

definition dry_summary :: "nat \<Rightarrow> nat \<Rightarrow> log_record" where
  "dry_summary count up_to_date =
     log_msg INFO (str_nat count @ '' migration patches run, '' @ str_nat up_to_date
                     @ '' already up to date, not live rolling back'')"

definition locked_msg :: log_record where
  "locked_msg =
     log_msg DEBUG ''another transaction has locked migrations, skipping migrations here''"

definition batch_world :: "settings \<Rightarrow> nat \<Rightarrow> 'd world \<Rightarrow> 'd world" where
  "batch_world st n w =
     (let w1 = called TrStart (called (Connect (pg_dsn st)) w);
          w2 = snd (execute_migrations_table (committed w1) w1);
          w3 = called (Execute LockTableMigrationsNowait) w2
      in logged (checking_msg n) (w3\<lparr>glove_pg := Some (DummyPgPool (BuildPgConnection (pg_dsn st)))\<rparr>))"

definition finish :: "bool \<Rightarrow> pg_pool option \<Rightarrow> 'd loop_exit \<times> 'd world \<Rightarrow> (fault + nat) \<times> 'd world" where
  "finish lv dpg x =
     (case x of
        (Raised e, w6) \<Rightarrow> (Inl e, called Close w6)
      | (Returned n, w6) \<Rightarrow> (Inr n, called Close w6)
      | (Finished count up_to_date tx1, w6) \<Rightarrow>
          if lv
          then (Inr count,
                called Close (logged (live_summary count up_to_date)
                  ((called TrCommit (w6\<lparr>glove_pg := dpg\<rparr>))\<lparr>committed := tx1\<rparr>)))
          else (Inr count,
                called Close (logged (dry_summary count up_to_date)
                  (called TrRollback (w6\<lparr>glove_pg := dpg\<rparr>)))))"


text \<open>
  The state of the transaction of a run at the moment its loop has gone through the
  patches \<open>pre\<close>, the first of the patches it looks at; \<open>None\<close> when the loop is left
  before that.
\<close>

definition transaction_after ::
  "sql_section_provider \<Rightarrow> settings \<Rightarrow> bool \<Rightarrow> 'd Patch list \<Rightarrow> 'd world
     \<Rightarrow> 'd Patch list \<Rightarrow> 'd database option" where
  "transaction_after gss st lv patches w pre =
     (case patch_loop gss st (BuildPgConnection (pg_dsn st)) lv (glove_pg w) pre 0 0
             (batch_db w) (batch_world st (length (eligible patches)) w) of
        (Finished n u tx, w1) \<Rightarrow> Some tx
      | (Returned n, w1) \<Rightarrow> None
      | (Raised e, w1) \<Rightarrow> None)"

text \<open>
  More for the examples: a database in which \<open>error_patch\<close> is recorded, as it is when
  its body returned in an earlier run; \<open>insert_org\<close> behind a plain callable, which
  hands back the coroutine and does not run it; and two more patches: one that names a section the provider
  \<open>no_sections\<close> does not find, and one whose section is named \<^verbatim>\<open>-\<close>, with a provider
  that knows this section alone and gives the text \<^verbatim>\<open>-\<close> for it.
\<close>

definition missing_section_patch :: "nat Patch" where
  "missing_section_patch = ok_patch\<lparr>auto_ref_sql_section := Some ''missing''\<rparr>"



definition recorded_error_db :: "nat world" where
  "recorded_error_db =
     \<lparr>committed =
        \<lparr>migrations = Some [\<lparr>row_id = 1, row_patch_name = ''error_patch'',
                              row_auto_ref = ''foobar'', row_sql_section_name = ''-'',
                              row_sql_section_content = ''-''\<rparr>],
         app = 0\<rparr>,
      migrations_id_seq = 1, lock_held_elsewhere = False, glove_pg = Some (PgPool ''app''),
      log = [], db_calls = []\<rparr>"

definition insert_org_coroutine :: "nat \<Rightarrow> (fault + nat pyval) \<times> nat \<times> log_record list" where
  "insert_org_coroutine d = (Inr PyNone, Suc d, [])"

definition wrapped_insert_org :: "nat Patch" where
  "wrapped_insert_org =
     \<lparr>func = Def ''insert_org'' (\<lambda>kw d. (Inr (PyCoroutine insert_org_coroutine), d, [])),
      auto_ref = Some ''orgs'', auto_ref_sql_section = None\<rparr>"

section \<open>Properties of \<^verbatim>\<open>run_patch\<close>\<close>

lemma isinstance_BaseException [simp]: "isinstance e BaseException"
  by (cases e; rename_tac c m; case_tac c) (simp_all add: isinstance_def)

lemma invoke_eq:
  "(if iscoroutinefunction f then await_call f kw d else call f kw d) = body_of f kw d"
  by (cases f) (simp_all add: await_call_def split: prod.splits)

lemma run_patch_eq:
  "run_patch c patch name lv tx w =
     (case body_of (func patch) (patch_kwargs c lv) (app tx) of
        (outcome, d, lines) \<Rightarrow>
          (Inr (\<not> isl outcome), tx\<lparr>app := d\<rparr>,
           w\<lparr>log := log w @ [log_msg INFO (banner ('' running '' @ name @ '' ''))] @ lines
                   @ epilogue name (dunder_name (func patch)) outcome\<rparr>))"
  by (simp add: run_patch_def invoke_eq logged_def epilogue_def Let_def
           split: prod.splits sum.splits)

text \<open>
  C7. Whatever fault the body of a patch raises, of whatever class, \<^verbatim>\<open>run_patch\<close>
  catches it: it returns \<^verbatim>\<open>False\<close>, having logged the failure banner and, at level
  ERROR, the message of \<^verbatim>\<open>logger.exception\<close> with the fault attached. What the body did
  before raising stays in the transaction. And in no case at all does \<^verbatim>\<open>run_patch\<close>
  raise: its result is always a returned boolean.
\<close>

theorem run_patch_catches_every_fault:
  "(\<exists>b. fst (run_patch c patch name lv tx w) = Inr b) \<and>
   (body_of (func patch) (patch_kwargs c lv) (app tx) = (Inl e, d, lines) \<longrightarrow>
      run_patch c patch name lv tx w =
        (Inr False, tx\<lparr>app := d\<rparr>,
         w\<lparr>log := log w @ [log_msg INFO (banner ('' running '' @ name @ '' ''))] @ lines
                @ [log_msg INFO (banner ('' '' @ name @ '' failed '')),
                   log_exception (''Error running '' @ dunder_name (func patch)
                                     @ '' migration patch'') e]\<rparr>))"
  by (simp add: run_patch_eq epilogue_def split: prod.splits)

lemma banner_running_error_patch:
  "banner '' running error_patch '' = ''-------------- running error_patch ---------------''"
  by code_simp

lemma banner_error_patch_failed:
  "banner '' error_patch failed '' = ''--------------- error_patch failed ---------------''"
  by code_simp

lemma banner_running_ok_patch:
  "banner '' running ok_patch '' = ''---------------- running ok_patch ----------------''"
  by code_simp

lemma banner_ok_patch_succeeded:
  "banner '' ok_patch succeeded '' = ''--------------- ok_patch succeeded ---------------''"
  by code_simp

theorem run_patch_catches_every_fault_witness:
  "run_patch (BuildPgConnection ''dsn'')
      \<lparr>func = AsyncDef ''error_patch'' (\<lambda>kw d. (Inl (Fault SystemExit ''1''), Suc d, [])),
       auto_ref = Some ''foobar'', auto_ref_sql_section = None\<rparr>
      ''error_patch'' True \<lparr>migrations = Some [], app = (0::nat)\<rparr> wiped_db
   = (Inr False, \<lparr>migrations = Some [], app = 1\<rparr>,
      wiped_db\<lparr>log :=
        [log_msg INFO ''-------------- running error_patch ---------------'',
         log_msg INFO ''--------------- error_patch failed ---------------'',
         log_exception ''Error running error_patch migration patch'' (Fault SystemExit ''1'')]\<rparr>)"
  using run_patch_catches_every_fault
    [of "BuildPgConnection ''dsn''"
        "\<lparr>func = AsyncDef ''error_patch'' (\<lambda>kw d. (Inl (Fault SystemExit ''1''), Suc d, [])),
          auto_ref = Some ''foobar'', auto_ref_sql_section = None\<rparr>"
        "''error_patch''" True "\<lparr>migrations = Some [], app = (0::nat)\<rparr>" wiped_db
        "Fault SystemExit ''1''" 1 "[]"]
  by (simp add: wiped_db_def banner_running_error_patch banner_error_patch_failed)

text \<open>
  C8, as amended. \<^verbatim>\<open>run_patch\<close> calls \<^verbatim>\<open>patch.func\<close> with the connection, the
  liveness flag, the logger of the module and an argument mapping whose only entry is
  the marker \<^verbatim>\<open>__auto_migrations__\<close>, and it awaits the call exactly when
  \<^verbatim>\<open>patch.func\<close> is a coroutine function. So the body of a plain function and the body
  of a coroutine function are each run once and to the end before the outcome is
  decided: the transaction holds what the body left, the log holds its lines between the
  opening banner and the closing one, and the result is success exactly when the body
  has ended without raising; the two kinds of function, given the same name and body,
  are run to the same effect. What a plain function returns is not awaited: when it
  returns a coroutine object, the computation of that object is not run, the patch
  counts as succeeded and the object is logged as its result.
\<close>

theorem run_patch_invocation:
  "run_patch c patch name lv tx w =
     (case body_of (func patch)
             \<lparr>conn = c, live = lv, args = [(''__auto_migrations__'', ''true'')],
              logger = ''foxglove.db.migrations''\<rparr> (app tx) of
        (outcome, d, lines) \<Rightarrow>
          (Inr (\<not> isl outcome), tx\<lparr>app := d\<rparr>,
           w\<lparr>log := log w @ [log_msg INFO (banner ('' running '' @ name @ '' ''))] @ lines
                   @ epilogue name (dunder_name (func patch)) outcome\<rparr>))
   \<and> run_patch c (patch\<lparr>func := AsyncDef n b\<rparr>) name lv tx w
       = run_patch c (patch\<lparr>func := Def n b\<rparr>) name lv tx w
   \<and> (func patch = Def n (\<lambda>kw d. (Inr (PyCoroutine co), d, [])) \<longrightarrow>
        run_patch c patch name lv tx w =
          (Inr True, tx,
           w\<lparr>log := log w @ [log_msg INFO (banner ('' running '' @ name @ '' '')),
                              log_msg INFO ''result: <coroutine object>'',
                              log_msg INFO (banner ('' '' @ name @ '' succeeded ''))]\<rparr>))"
  using run_patch_eq [of c patch name lv tx w]
  by (auto simp: patch_kwargs_def logger_name_def run_patch_eq epilogue_def)

theorem run_patch_invocation_witness:
  "run_patch (BuildPgConnection ''dsn'') wrapped_insert_org ''insert_org'' True
      \<lparr>migrations = Some [], app = 0\<rparr> wiped_db
   = (Inr True, \<lparr>migrations = Some [], app = 0\<rparr>,
      wiped_db\<lparr>log :=
        [log_msg INFO (banner '' running insert_org ''),
         log_msg INFO ''result: <coroutine object>'',
         log_msg INFO (banner '' insert_org succeeded '')]\<rparr>)"
proof -
  have h: "func wrapped_insert_org
             = Def ''insert_org'' (\<lambda>kw d. (Inr (PyCoroutine insert_org_coroutine), d, []))"
    by (simp add: wrapped_insert_org_def)
  have l: "log wiped_db = []" by (simp add: wiped_db_def)
  from run_patch_invocation
         [of "BuildPgConnection ''dsn''" wrapped_insert_org "''insert_org''" True
             "\<lparr>migrations = Some [], app = 0\<rparr>" wiped_db,
          THEN conjunct2, THEN conjunct2, rule_format, OF h]
  show ?thesis by (simp add: l)
qed

text \<open>
  The statement of C8 itself, for every patch body, fails for an asynchronous body
  behind a plain callable. \<open>wrapped_insert_org\<close> is no coroutine function; called, it
  returns the coroutine object of \<open>insert_org\<close>, whose computation, when awaited, adds an
  organisation. \<^verbatim>\<open>run_patch\<close> does not await it: it returns \<^verbatim>\<open>True\<close> and the
  transaction has no organisation more than before.
\<close>

theorem plain_callable_not_awaited_counterexample:
  "\<not> iscoroutinefunction (func wrapped_insert_org)
   \<and> call (func wrapped_insert_org) (patch_kwargs (BuildPgConnection ''dsn'') True) 0
       = (Inr (PyCoroutine insert_org_coroutine), 0, [])
   \<and> await (PyCoroutine insert_org_coroutine) 0 = (Inr PyNone, 1, [])
   \<and> fst (run_patch (BuildPgConnection ''dsn'') wrapped_insert_org ''insert_org'' True
            \<lparr>migrations = Some [], app = 0\<rparr> wiped_db) = Inr True
   \<and> app (fst (snd (run_patch (BuildPgConnection ''dsn'') wrapped_insert_org ''insert_org''
                       True \<lparr>migrations = Some [], app = 0\<rparr> wiped_db))) = 0"
  by (simp add: wrapped_insert_org_def insert_org_coroutine_def run_patch_def Let_def)

text \<open>
  C10. Only raising makes a patch fail. \<^verbatim>\<open>run_patch\<close> returns \<^verbatim>\<open>True\<close> exactly when
  the body returns and \<^verbatim>\<open>False\<close> exactly when it raises; whatever value the body
  returns, also \<^verbatim>\<open>None\<close>, \<^verbatim>\<open>False\<close> or \<^verbatim>\<open>0\<close>, the result is \<^verbatim>\<open>True\<close>, and the
  value is only logged, when it is not \<^verbatim>\<open>None\<close>.
\<close>

theorem run_patch_success_iff_no_raise:
  "(fst (run_patch c patch name lv tx w) = Inr True
      \<longleftrightarrow> (\<exists>v. fst (body_of (func patch) (patch_kwargs c lv) (app tx)) = Inr v))
   \<and> (fst (run_patch c patch name lv tx w) = Inr False
      \<longleftrightarrow> (\<exists>e. fst (body_of (func patch) (patch_kwargs c lv) (app tx)) = Inl e))
   \<and> (\<forall>v d lines. body_of (func patch) (patch_kwargs c lv) (app tx) = (Inr v, d, lines) \<longrightarrow>
         run_patch c patch name lv tx w =
           (Inr True, tx\<lparr>app := d\<rparr>,
            w\<lparr>log := log w @ [log_msg INFO (banner ('' running '' @ name @ '' ''))] @ lines
                   @ (if v \<noteq> PyNone then [log_msg INFO (''result: '' @ py_str v)] else [])
                   @ [log_msg INFO (banner ('' '' @ name @ '' succeeded ''))]\<rparr>))"
  by (cases "body_of (func patch) (patch_kwargs c lv) (app tx)";
      cases "fst (body_of (func patch) (patch_kwargs c lv) (app tx))")
     (auto simp: run_patch_eq epilogue_def)

theorem run_patch_success_iff_no_raise_witness:
  "run_patch (BuildPgConnection ''dsn'')
      \<lparr>func = Def ''ok_patch'' (\<lambda>kw d. (Inr (PyBool False), Suc d, [])),
       auto_ref = Some ''foobar'', auto_ref_sql_section = None\<rparr>
      ''ok_patch'' True \<lparr>migrations = Some [], app = (0::nat)\<rparr> wiped_db
   = (Inr True, \<lparr>migrations = Some [], app = 1\<rparr>,
      wiped_db\<lparr>log :=
        [log_msg INFO ''---------------- running ok_patch ----------------'',
         log_msg INFO ''result: False'',
         log_msg INFO ''--------------- ok_patch succeeded ---------------'']\<rparr>)"
  using run_patch_success_iff_no_raise
    [of "BuildPgConnection ''dsn''"
        "\<lparr>func = Def ''ok_patch'' (\<lambda>kw d. (Inr (PyBool False), Suc d, [])),
          auto_ref = Some ''foobar'', auto_ref_sql_section = None\<rparr>"
        "''ok_patch''" True "\<lparr>migrations = Some [], app = (0::nat)\<rparr>" wiped_db]
  by (simp add: wiped_db_def banner_running_ok_patch banner_ok_patch_succeeded)

section \<open>The loop\<close>

subsection \<open>One turn\<close>

lemma ledger_keys_Some: "migrations tx = Some rows \<Longrightarrow> ledger_keys tx = set (map identity rows)"
  by (simp add: ledger_keys_def)

lemma recordable_resolves:
  assumes "recordable gss st q"
  obtains content where "resolve_section gss st q = Inr content"
  using assms by (cases "resolve_section gss st q") (auto simp: recordable_def)

lemma insert_conflict:
  assumes "recordable gss st q" "migrations tx = Some rows" "patch_key gss st q \<in> ledger_keys tx"
    "resolve_section gss st q = Inr content"
  shows "fetchval_insert (dunder_name (func q)) (auto_ref q) (or_dash (auto_ref_sql_section q))
           (or_dash content) tx w = (Inr None, tx, after_insert gss st q w)"
  using assms
  by (auto simp: fetchval_insert_def recordable_def ledger_keys_def patch_key_def
        section_content_def after_insert_def insert_call_def called_def Let_def
        split: option.splits)

lemma insert_new:
  assumes "recordable gss st q" "migrations tx = Some rows" "patch_key gss st q \<notin> ledger_keys tx"
    "resolve_section gss st q = Inr content"
  shows "\<exists>i row. fetchval_insert (dunder_name (func q)) (auto_ref q) (or_dash (auto_ref_sql_section q))
           (or_dash content) tx w
          = (Inr (Some i), tx\<lparr>migrations := Some (rows @ [row])\<rparr>, after_insert gss st q w)
          \<and> identity row = patch_key gss st q"
  using assms
  by (auto simp: fetchval_insert_def recordable_def ledger_keys_def patch_key_def
        section_content_def after_insert_def insert_call_def called_def Let_def identity_def
        split: option.splits)

lemma step_conflict:
  assumes "recordable gss st q" "migrations tx = Some rows" "patch_key gss st q \<in> ledger_keys tx"
  shows "patch_loop gss st c lv dpg (q # rest) count up tx w
         = patch_loop gss st c lv dpg rest count (Suc up) tx (after_insert gss st q w)"
proof -
  from assms(1) obtain content where r: "resolve_section gss st q = Inr content"
    by (rule recordable_resolves)
  show ?thesis
    by (simp add: r insert_conflict [OF assms r])
qed

lemma step_run_ok:
  assumes "recordable gss st q" "migrations tx = Some rows" "patch_key gss st q \<notin> ledger_keys tx"
    and b: "body_of (func q) (patch_kwargs c lv) (app tx) = (outcome, d, lines)"
    and ok: "\<not> isl outcome"
  shows "\<exists>row. identity row = patch_key gss st q \<and>
     (\<forall>rest. patch_loop gss st c lv dpg (q # rest) count up tx w
       = patch_loop gss st c lv dpg rest (Suc count) up
                 (tx\<lparr>migrations := Some (rows @ [row]), app := d\<rparr>)
                 ((after_insert gss st q w)\<lparr>log := log w @ run_log q outcome lines\<rparr>))"
proof -
  from assms(1) obtain content where r: "resolve_section gss st q = Inr content"
    by (rule recordable_resolves)
  from insert_new [OF assms(1-3) r, of w] obtain i row where
    ins: "fetchval_insert (dunder_name (func q)) (auto_ref q) (or_dash (auto_ref_sql_section q))
           (or_dash content) tx w
          = (Inr (Some i), tx\<lparr>migrations := Some (rows @ [row])\<rparr>, after_insert gss st q w)"
    and idr: "identity row = patch_key gss st q"
    by blast
  have "\<forall>rest. patch_loop gss st c lv dpg (q # rest) count up tx w
       = patch_loop gss st c lv dpg rest (Suc count) up
                 (tx\<lparr>migrations := Some (rows @ [row]), app := d\<rparr>)
                 ((after_insert gss st q w)\<lparr>log := log w @ run_log q outcome lines\<rparr>)"
    using ok
    by (simp add: r ins run_patch_eq b run_log_def running_banner_def after_insert_def
          logged_def called_def Let_def)
  with idr show ?thesis by (intro exI [of _ row] conjI)
qed

lemma step_run_fail:
  assumes "recordable gss st q" "migrations tx = Some rows" "patch_key gss st q \<notin> ledger_keys tx"
    and b: "body_of (func q) (patch_kwargs c lv) (app tx) = (outcome, d, lines)"
    and bad: "isl outcome"
  shows "patch_loop gss st c lv dpg (q # rest) count up tx w
       = (Returned 0,
                (after_insert gss st q w)
                  \<lparr>log := log w @ run_log q outcome lines @ [patch_failed_msg count],
                   db_calls := db_calls w @ [insert_call gss st q, TrRollback],
                   glove_pg := dpg\<rparr>)"
proof -
  from assms(1) obtain content where r: "resolve_section gss st q = Inr content"
    by (rule recordable_resolves)
  from insert_new [OF assms(1-3) r, of w] obtain i row where
    ins: "fetchval_insert (dunder_name (func q)) (auto_ref q) (or_dash (auto_ref_sql_section q))
           (or_dash content) tx w
          = (Inr (Some i), tx\<lparr>migrations := Some (rows @ [row])\<rparr>, after_insert gss st q w)"
    by blast
  show ?thesis
    using bad
    by (simp add: r ins run_patch_eq b run_log_def running_banner_def after_insert_def
          logged_def called_def Let_def patch_failed_msg_def)
qed

subsection \<open>A run of unrecorded patches whose bodies all return\<close>

lemma unrecorded_Cons:
  assumes "unrecorded gss st (q # ps) tx" "migrations tx = Some rows"
    "identity row = patch_key gss st q"
  shows "patch_key gss st q \<notin> ledger_keys tx"
    and "unrecorded gss st ps (tx\<lparr>migrations := Some (rows @ [row]), app := d\<rparr>)"
proof -
  let ?tx2 = "tx\<lparr>migrations := Some (rows @ [row]), app := d\<rparr>"
  have k2: "ledger_keys ?tx2 = insert (patch_key gss st q) (ledger_keys tx)"
    using assms(2,3) by (simp add: ledger_keys_def)
  from assms(1) show "patch_key gss st q \<notin> ledger_keys tx"
    by (simp add: unrecorded_def)
  from assms(1) show "unrecorded gss st ps ?tx2"
    unfolding unrecorded_def k2 by (auto simp: image_iff)
qed

lemma loop_all_new:
  assumes "\<forall>q\<in>set ps. recordable gss st q" "unrecorded gss st ps tx"
    "all_return c lv ps (app tx)" "migrations tx = Some rows"
  shows "\<exists>tx' w'. patch_loop gss st c lv dpg ps count up tx w
                     = (Finished (count + length ps) up tx', w')
         \<and> log w' = log w @ bodies_log c lv ps (app tx)
         \<and> db_calls w' = db_calls w @ map (insert_call gss st) ps
         \<and> committed w' = committed w \<and> glove_pg w' = glove_pg w"
  using assms
proof (induction ps arbitrary: count tx w rows)
  case Nil
  then show ?case by simp
next
  case (Cons q ps)
  from Cons.prems(1) have rq: "recordable gss st q"
    and rest: "\<forall>q\<in>set ps. recordable gss st q" by auto
  obtain outcome d lines where
    b: "body_of (func q) (patch_kwargs c lv) (app tx) = (outcome, d, lines)"
    by (rule prod_cases3)
  with Cons.prems(3) have ok: "\<not> isl outcome" and ret: "all_return c lv ps d"
    by simp_all
  have newq: "patch_key gss st q \<notin> ledger_keys tx"
    using Cons.prems(2) by (simp add: unrecorded_def)
  from step_run_ok [OF rq Cons.prems(4) newq b ok, of dpg count up w]
  obtain row where idr: "identity row = patch_key gss st q"
    and step: "\<forall>rest. patch_loop gss st c lv dpg (q # rest) count up tx w
       = patch_loop gss st c lv dpg rest (Suc count) up
                 (tx\<lparr>migrations := Some (rows @ [row]), app := d\<rparr>)
                 ((after_insert gss st q w)\<lparr>log := log w @ run_log q outcome lines\<rparr>)"
    by (elim exE conjE)
  let ?tx2 = "tx\<lparr>migrations := Some (rows @ [row]), app := d\<rparr>"
  let ?w2 = "(after_insert gss st q w)\<lparr>log := log w @ run_log q outcome lines\<rparr>"
  have m2: "migrations ?tx2 = Some (rows @ [row])" by simp
  have u2: "unrecorded gss st ps ?tx2"
    using unrecorded_Cons(2) [OF Cons.prems(2) Cons.prems(4) idr] .
  have ret2: "all_return c lv ps (app ?tx2)" using ret by simp
  from Cons.IH [OF rest u2 ret2 m2, of "Suc count" ?w2]
  obtain tx' w' where IH:
    "patch_loop gss st c lv dpg ps (Suc count) up ?tx2 ?w2
       = (Finished (Suc count + length ps) up tx', w')"
    "log w' = log ?w2 @ bodies_log c lv ps (app ?tx2)"
    "db_calls w' = db_calls ?w2 @ map (insert_call gss st) ps"
    "committed w' = committed ?w2" "glove_pg w' = glove_pg ?w2"
    by (elim exE conjE)
  show ?case
    using IH step b
    by (intro exI [of _ tx'] exI [of _ w']) (simp add: after_insert_def)
qed

subsection \<open>What the loop leaves alone, and what it tells when it ends\<close>

lemma fetchval_insert_frame:
  assumes "fetchval_insert pn ar sn sc tx w = (r, tx1, w1)"
  shows "committed w1 = committed w \<and> glove_pg w1 = glove_pg w \<and> log w1 = log w
         \<and> lock_held_elsewhere w1 = lock_held_elsewhere w
         \<and> db_calls w1 = db_calls w @ [Fetchval InsertIntoMigrationsOnConflictDoNothingReturningId
                         [Some pn, ar, Some sn, Some sc]]
         \<and> app tx1 = app tx"
  using assms
  by (auto simp: fetchval_insert_def called_def Let_def split: option.splits if_splits)

lemma run_patch_frame:
  assumes "run_patch c q name lv tx w = (r, tx1, w1)"
  shows "committed w1 = committed w \<and> glove_pg w1 = glove_pg w
         \<and> lock_held_elsewhere w1 = lock_held_elsewhere w
         \<and> db_calls w1 = db_calls w \<and> migrations tx1 = migrations tx
         \<and> (\<exists>b. r = Inr b)"
  using assms
  by (auto simp: run_patch_eq split: prod.splits)

lemma patch_loop_frame:
  "patch_loop gss st c lv dpg ps count up tx w = (ex, w') \<Longrightarrow>
     committed w' = committed w \<and> lock_held_elsewhere w' = lock_held_elsewhere w
     \<and> (\<exists>cs. db_calls w' = db_calls w @ cs \<and> TrCommit \<notin> set cs)
     \<and> glove_pg w' = (case ex of Returned n \<Rightarrow> dpg | _ \<Rightarrow> glove_pg w)
     \<and> (case ex of Returned n \<Rightarrow> n = 0 | _ \<Rightarrow> True)"
proof (induction ps arbitrary: count up tx w)
  case Nil
  then show ?case by auto
next
  case (Cons q ps)
  show ?case
  proof (cases "resolve_section gss st q")
    case (Inl e)
    with Cons.prems show ?thesis by auto
  next
    case (Inr content)
    obtain r tx1 w1 where ins: "fetchval_insert (dunder_name (func q)) (auto_ref q)
        (or_dash (auto_ref_sql_section q)) (or_dash content) tx w = (r, tx1, w1)"
      by (rule prod_cases3)
    note f1 = fetchval_insert_frame [OF ins]
    show ?thesis
    proof (cases r)
      case (Inl e)
      with Cons.prems Inr ins f1 show ?thesis by auto
    next
      case r: (Inr res)
      show ?thesis
      proof (cases res)
        case None
        with Cons.prems Inr ins r
        have "patch_loop gss st c lv dpg ps count (up + 1) tx1 w1 = (ex, w')" by simp
        from Cons.IH [OF this] f1 show ?thesis by (auto split: loop_exit.splits)
      next
        case (Some i)
        obtain r2 tx2 w2 where rp: "run_patch c q (dunder_name (func q)) lv tx1 w1 = (r2, tx2, w2)"
          by (rule prod_cases3)
        note f2 = run_patch_frame [OF rp]
        then obtain b where b: "r2 = Inr b" by blast
        show ?thesis
        proof (cases b)
          case True
          with Cons.prems Inr ins r Some rp b
          have "patch_loop gss st c lv dpg ps (count + 1) up tx2 w2 = (ex, w')" by (simp add: Let_def)
          from Cons.IH [OF this] f1 f2 show ?thesis by (auto split: loop_exit.splits)
        next
          case False
          with Cons.prems Inr ins r Some rp b f1 f2 show ?thesis
            by (auto simp: Let_def called_def logged_def)
        qed
      qed
    qed
  qed
qed

lemma loop_up_to_date:
  assumes "\<forall>q\<in>set ps. recordable gss st q \<and> patch_key gss st q \<in> ledger_keys tx"
    and "migrations tx = Some rows"
  shows "\<exists>w'. patch_loop gss st c lv dpg ps count up tx w = (Finished count (up + length ps) tx, w')
          \<and> log w' = log w \<and> db_calls w' = db_calls w @ map (insert_call gss st) ps
          \<and> glove_pg w' = glove_pg w \<and> committed w' = committed w"
  using assms
proof (induction ps arbitrary: up w)
  case Nil
  then show ?case by simp
next
  case (Cons q ps)
  from Cons.prems have rq: "recordable gss st q" and kq: "patch_key gss st q \<in> ledger_keys tx"
    and rest: "\<forall>q\<in>set ps. recordable gss st q \<and> patch_key gss st q \<in> ledger_keys tx"
    by auto
  from Cons.IH [OF rest Cons.prems(2), of "Suc up" "after_insert gss st q w"]
  obtain w' where IH:
    "patch_loop gss st c lv dpg ps count (Suc up) tx (after_insert gss st q w)
       = (Finished count (Suc up + length ps) tx, w')"
    "log w' = log (after_insert gss st q w)"
    "db_calls w' = db_calls (after_insert gss st q w) @ map (insert_call gss st) ps"
    "glove_pg w' = glove_pg (after_insert gss st q w)"
    "committed w' = committed (after_insert gss st q w)"
    by (elim exE conjE)
  show ?case
    using IH step_conflict [OF rq Cons.prems(2) kq, of c lv dpg ps count up w]
    by (intro exI [of _ w']) (simp add: after_insert_def)
qed

text \<open>What a loop that ran to its end tells about the patches.\<close>

lemma fetchval_insert_Inr:
  assumes "fetchval_insert pn ar sn sc tx w = (Inr res, tx1, w1)" "migrations tx = Some rows"
  shows "(\<exists>a. ar = Some a \<and> length a \<le> 255 \<and> length pn \<le> 255 \<and> length sn \<le> 255
             \<and> (pn, a, sn, sc) \<in> ledger_keys tx1)
         \<and> ledger_keys tx \<subseteq> ledger_keys tx1 \<and> migrations tx1 \<noteq> None"
  using assms
  by (auto simp: fetchval_insert_def called_def Let_def ledger_keys_def identity_def
        split: option.splits if_splits)

lemma loop_finished:
  assumes "patch_loop gss st c lv dpg ps count up tx w = (Finished n u tx', w')"
    and "migrations tx = Some rows"
  shows "(\<forall>q\<in>set ps. recordable gss st q \<and> patch_key gss st q \<in> ledger_keys tx')
         \<and> ledger_keys tx \<subseteq> ledger_keys tx' \<and> migrations tx' \<noteq> None
         \<and> db_calls w' = db_calls w @ map (insert_call gss st) ps"
  using assms
proof (induction ps arbitrary: count up tx w rows)
  case Nil
  then show ?case by simp
next
  case (Cons q ps)
  show ?case
  proof (cases "resolve_section gss st q")
    case (Inl e)
    with Cons.prems show ?thesis by simp
  next
    case (Inr content)
    obtain r tx1 w1 where ins: "fetchval_insert (dunder_name (func q)) (auto_ref q)
        (or_dash (auto_ref_sql_section q)) (or_dash content) tx w = (r, tx1, w1)"
      by (rule prod_cases3)
    from fetchval_insert_frame [OF ins] Inr
    have d1: "db_calls w1 = db_calls w @ [insert_call gss st q]"
      by (simp add: insert_call_def section_content_def)
    show ?thesis
    proof (cases r)
      case (Inl e)
      with Cons.prems Inr ins show ?thesis by simp
    next
      case r: (Inr res)
      from fetchval_insert_Inr [OF ins [unfolded r] Cons.prems(2)]
      have q: "recordable gss st q \<and> patch_key gss st q \<in> ledger_keys tx1"
        and mono: "ledger_keys tx \<subseteq> ledger_keys tx1" and ex1: "migrations tx1 \<noteq> None"
        using Inr by (auto simp: recordable_def patch_key_def section_content_def)
      from ex1 obtain rows1 where m1: "migrations tx1 = Some rows1" by auto
      show ?thesis
      proof (cases res)
        case None
        with Cons.prems Inr ins r
        have "patch_loop gss st c lv dpg ps count (up + 1) tx1 w1 = (Finished n u tx', w')"
          by simp
        from Cons.IH [OF this m1] q mono d1 show ?thesis by auto
      next
        case (Some i)
        obtain r2 tx2 w2 where rp: "run_patch c q (dunder_name (func q)) lv tx1 w1 = (r2, tx2, w2)"
          by (rule prod_cases3)
        from run_patch_frame [OF rp] obtain b where b: "r2 = Inr b"
          and m2: "migrations tx2 = migrations tx1" and d2: "db_calls w2 = db_calls w1" by blast
        have k2: "ledger_keys tx2 = ledger_keys tx1" by (simp add: ledger_keys_def m2)
        from Cons.prems Inr ins r Some rp b
        have "b" and "patch_loop gss st c lv dpg ps (count + 1) up tx2 w2 = (Finished n u tx', w')"
          by (auto simp: Let_def split: if_splits)
        from Cons.IH [OF this(2) m1 [folded m2]] q mono k2 d1 d2 show ?thesis by auto
      qed
    qed
  qed
qed

text \<open>A loop that gets through the first patches of a list goes on with the others.\<close>

lemma loop_append:
  assumes "patch_loop gss st c lv dpg pre count up tx w = (Finished n u tx', w')"
  shows "patch_loop gss st c lv dpg (pre @ tail) count up tx w
           = patch_loop gss st c lv dpg tail n u tx' w'"
  using assms
proof (induction pre arbitrary: count up tx w)
  case Nil
  then show ?case by simp
next
  case (Cons q ps)
  show ?case
  proof (cases "resolve_section gss st q")
    case (Inl e)
    with Cons.prems show ?thesis by simp
  next
    case (Inr content)
    obtain r tx1 w1 where ins: "fetchval_insert (dunder_name (func q)) (auto_ref q)
        (or_dash (auto_ref_sql_section q)) (or_dash content) tx w = (r, tx1, w1)"
      by (rule prod_cases3)
    show ?thesis
    proof (cases r)
      case (Inl e)
      with Cons.prems Inr ins show ?thesis by simp
    next
      case r: (Inr res)
      show ?thesis
      proof (cases res)
        case None
        with Cons.prems Inr ins r
        have "patch_loop gss st c lv dpg ps count (up + 1) tx1 w1 = (Finished n u tx', w')"
          by simp
        from Cons.IH [OF this] Inr ins r None show ?thesis by simp
      next
        case (Some i)
        obtain r2 tx2 w2 where rp: "run_patch c q (dunder_name (func q)) lv tx1 w1 = (r2, tx2, w2)"
          by (rule prod_cases3)
        from run_patch_frame [OF rp] obtain b where b: "r2 = Inr b" by blast
        from Cons.prems Inr ins r Some rp b
        have "b" and "patch_loop gss st c lv dpg ps (count + 1) up tx2 w2 = (Finished n u tx', w')"
          by (auto simp: Let_def split: if_splits)
        from Cons.IH [OF this(2)] Inr ins r Some rp b \<open>b\<close> show ?thesis
          by (simp add: Let_def)
      qed
    qed
  qed
qed

section \<open>Around the loop\<close>

lemma isinstance_Lock [simp]:
  "isinstance (Fault LockNotAvailableError m) LockNotAvailableError"
  by (simp add: isinstance_def)

lemma run_migrations_nothing:
  "eligible patches = [] \<Longrightarrow> run_migrations gss st patches lv w = (Inr 0, w)"
  by (simp add: run_migrations_def eligible_def)

lemma run_migrations_locked:
  assumes "eligible patches \<noteq> []" "lock_held_elsewhere w"
  shows "run_migrations gss st patches lv w =
           (Inr 0, w\<lparr>db_calls := db_calls w @ opening_calls st @ [TrRollback, Close],
                     migrations_id_seq :=
                       (case migrations (committed w) of None \<Rightarrow> 0
                        | Some rows \<Rightarrow> migrations_id_seq w),
                     log := log w @ [locked_msg]\<rparr>)"
  using assms
  by (cases "migrations (committed w)")
     (simp_all add: run_migrations_def eligible_def execute_migrations_table_def
        execute_lock_table_nowait_def called_def logged_def opening_calls_def locked_msg_def
        Let_def)

lemma batch_db_exists: "\<exists>rows. migrations (batch_db w) = Some rows"
  by (simp add: batch_db_def split: option.splits)

lemma batch_db_keys [simp]: "ledger_keys (batch_db w) = ledger_keys (committed w)"
  by (simp add: batch_db_def ledger_keys_def split: option.splits)

lemma batch_db_app [simp]: "app (batch_db w) = app (committed w)"
  by (simp add: batch_db_def split: option.splits)

lemma batch_db_idem: "migrations (committed w) = Some rows \<Longrightarrow> batch_db w = committed w"
  by (simp add: batch_db_def)

lemma batch_world_simps [simp]:
  "committed (batch_world st n w) = committed w"
  "lock_held_elsewhere (batch_world st n w) = lock_held_elsewhere w"
  "glove_pg (batch_world st n w) = Some (DummyPgPool (BuildPgConnection (pg_dsn st)))"
  "log (batch_world st n w) = log w @ [checking_msg n]"
  "db_calls (batch_world st n w) = db_calls w @ opening_calls st"
  by (simp_all add: batch_world_def execute_migrations_table_def called_def logged_def
        opening_calls_def Let_def split: option.splits)

lemma run_migrations_unlocked:
  assumes "eligible patches \<noteq> []" "\<not> lock_held_elsewhere w"
  shows "run_migrations gss st patches lv w =
           finish lv (glove_pg w)
             (patch_loop gss st (BuildPgConnection (pg_dsn st)) lv (glove_pg w) (eligible patches)
                0 0 (batch_db w) (batch_world st (length (eligible patches)) w))"
proof -
  obtain ex w6 where loop:
    "patch_loop gss st (BuildPgConnection (pg_dsn st)) lv (glove_pg w) (eligible patches)
                0 0 (batch_db w) (batch_world st (length (eligible patches)) w) = (ex, w6)"
    by (rule prod.exhaust)
  show ?thesis
    using assms loop
    by (cases "migrations (committed w)"; cases ex)
       (simp_all add: run_migrations_def eligible_def execute_migrations_table_def
          execute_lock_table_nowait_def called_def logged_def
          batch_db_def batch_world_def checking_msg_def finish_def live_summary_def
          dry_summary_def Let_def)
qed

section \<open>Properties of \<^verbatim>\<open>run_migrations\<close>\<close>

lemma calls_during_append [simp]: "db_calls w' = db_calls w @ cs \<Longrightarrow> calls_during w w' = cs"
  by (simp add: calls_during_def)

lemma eligible_nil_iff: "eligible patches = [] \<longleftrightarrow> (\<forall>p\<in>set patches. \<not> truthy (auto_ref p))"
  by (simp add: eligible_def filter_empty_conv)

lemma example_facts:
  "eligible [insert_org, ok_patch, error_patch] = [insert_org, ok_patch, error_patch]"
  "eligible [insert_org, ok_patch] = [insert_org, ok_patch]"
  "recordable no_sections test_settings insert_org"
  "recordable no_sections test_settings ok_patch"
  "recordable no_sections test_settings error_patch"
  "passes c lv insert_org" "passes c lv ok_patch" "fails c lv error_patch"
  "patch_key no_sections test_settings insert_org = (''insert_org'', ''orgs'', ''-'', ''-'')"
  "patch_key no_sections test_settings ok_patch = (''ok_patch'', ''foobar'', ''-'', ''-'')"
  "patch_key no_sections test_settings error_patch = (''error_patch'', ''foobar'', ''-'', ''-'')"
  by (simp_all add: eligible_def recordable_def passes_def fails_def patch_key_def
        section_content_def resolve_section_def insert_org_def ok_patch_def error_patch_def)

text \<open>
  C3. When no patch of the list has a non-empty \<^verbatim>\<open>auto_ref\<close>, \<^verbatim>\<open>run_migrations\<close>
  returns 0 and leaves the world as it was: no connection is opened, no transaction is
  started, no call is made on the database and nothing is logged.
\<close>

theorem no_op_fast_path:
  assumes "\<forall>p\<in>set patches. auto_ref p = None \<or> auto_ref p = Some []"
  shows "run_migrations gss st patches lv w = (Inr 0, w)"
proof -
  from assms have "eligible patches = []"
    unfolding eligible_nil_iff by auto
  then show ?thesis by (rule run_migrations_nothing)
qed

theorem no_op_fast_path_witness:
  "run_migrations no_sections test_settings
     [ok_patch\<lparr>auto_ref := None\<rparr>, error_patch\<lparr>auto_ref := Some []\<rparr>] True wiped_db
   = (Inr 0, wiped_db)"
  using no_op_fast_path
    [of "[ok_patch\<lparr>auto_ref := None\<rparr>, error_patch\<lparr>auto_ref := Some []\<rparr>]"
        no_sections test_settings True wiped_db]
  by simp

text \<open>
  C4. When another transaction holds the lock on \<^verbatim>\<open>migrations\<close> and there is a patch to
  look at, \<^verbatim>\<open>run_migrations\<close> returns 0 and does not raise. It has opened its
  transaction, run the \<^verbatim>\<open>create table if not exists\<close> and asked for the lock with
  \<^verbatim>\<open>nowait\<close>; it then rolls back and closes, so the committed database is what it was,
  a table created by this call included. \<^verbatim>\<open>glove.pg\<close> is untouched, and the only thing
  logged is the debug message.
\<close>

theorem lock_contention:
  assumes "\<exists>p\<in>set patches. truthy (auto_ref p)" and "lock_held_elsewhere w"
    and "run_migrations gss st patches lv w = (r, w')"
  shows "r = Inr 0 \<and> committed w' = committed w \<and> glove_pg w' = glove_pg w
         \<and> log w' = log w @ [locked_msg]
         \<and> calls_during w w' = opening_calls st @ [TrRollback, Close]"
proof -
  from assms(1) have "eligible patches \<noteq> []"
    unfolding eligible_nil_iff by auto
  from run_migrations_locked [OF this assms(2), of gss st lv] assms(3)
  show ?thesis by auto
qed

theorem lock_contention_witness:
  "fst (run_migrations no_sections test_settings [ok_patch] True
          (wiped_db\<lparr>lock_held_elsewhere := True\<rparr>)) = Inr 0
   \<and> committed (snd (run_migrations no_sections test_settings [ok_patch] True
          (wiped_db\<lparr>lock_held_elsewhere := True\<rparr>))) = \<lparr>migrations = None, app = 0\<rparr>
   \<and> glove_pg (snd (run_migrations no_sections test_settings [ok_patch] True
          (wiped_db\<lparr>lock_held_elsewhere := True\<rparr>))) = Some (PgPool ''app'')
   \<and> log (snd (run_migrations no_sections test_settings [ok_patch] True
          (wiped_db\<lparr>lock_held_elsewhere := True\<rparr>))) = [locked_msg]
   \<and> db_calls (snd (run_migrations no_sections test_settings [ok_patch] True
          (wiped_db\<lparr>lock_held_elsewhere := True\<rparr>)))
        = [Connect (pg_dsn test_settings), TrStart, Execute migrations_table,
           Execute LockTableMigrationsNowait, TrRollback, Close]"
proof -
  have h1: "\<exists>p\<in>set [ok_patch]. truthy (auto_ref p)" by (simp add: ok_patch_def)
  have h2: "lock_held_elsewhere (wiped_db\<lparr>lock_held_elsewhere := True\<rparr>)" by simp
  from lock_contention [OF h1 h2 prod.collapse [symmetric], of no_sections test_settings True]
  show ?thesis by (simp add: wiped_db_def calls_during_def opening_calls_def)
qed

text \<open>
  C1, as amended. Let the patches that the run looks at be \<open>pre\<close>, then \<open>p\<close>, then
  \<open>post\<close>. Let the loop get through \<open>pre\<close> and leave the transaction in the state
  \<open>tx\<close>, let \<open>p\<close> not be in the ledger of \<open>tx\<close> and its insert not raise, so that its
  body is run, and let the body raise on the data of \<open>tx\<close>. Then \<^verbatim>\<open>run_migrations\<close>
  returns 0, and the committed database, the ledger and the application data alike, is
  what it was before the call: neither the rows inserted for \<open>pre\<close> and \<open>p\<close> nor anything
  a body did persists. The transaction ends with a rollback, \<open>post\<close> is never looked at,
  and \<^verbatim>\<open>glove.pg\<close> is back to its value.
\<close>

theorem batch_is_atomic:
  assumes el: "eligible patches = pre @ p # post"
    and free: "\<not> lock_held_elsewhere w"
    and reach: "transaction_after gss st lv patches w pre = Some tx"
    and rec: "recordable gss st p"
    and new: "patch_key gss st p \<notin> ledger_keys tx"
    and bad: "isl (fst (body_of (func p) (patch_kwargs (BuildPgConnection (pg_dsn st)) lv)
                          (app tx)))"
    and run: "run_migrations gss st patches lv w = (r, w')"
  shows "r = Inr 0 \<and> committed w' = committed w \<and> glove_pg w' = glove_pg w
         \<and> calls_during w w'
             = opening_calls st @ map (insert_call gss st) (pre @ [p]) @ [TrRollback, Close]"
proof -
  let ?c = "BuildPgConnection (pg_dsn st)"
  let ?w0 = "batch_world st (length (eligible patches)) w"
  from el have ne: "eligible patches \<noteq> []" by simp
  from reach obtain n u w1 where
    loop_pre: "patch_loop gss st ?c lv (glove_pg w) pre 0 0 (batch_db w) ?w0
                 = (Finished n u tx, w1)"
    by (auto simp: transaction_after_def split: prod.splits loop_exit.splits)
  obtain rows where m0: "migrations (batch_db w) = Some rows"
    using batch_db_exists by blast
  from loop_finished [OF loop_pre m0] obtain rows1 where m1: "migrations tx = Some rows1"
    and d1: "db_calls w1 = db_calls w @ opening_calls st @ map (insert_call gss st) pre"
    by auto
  from patch_loop_frame [OF loop_pre] have c1: "committed w1 = committed w" by simp
  obtain outcome d lines where
    b: "body_of (func p) (patch_kwargs ?c lv) (app tx) = (outcome, d, lines)"
    by (rule prod_cases3)
  with bad have bad': "isl outcome" by simp
  have "patch_loop gss st ?c lv (glove_pg w) (eligible patches) 0 0 (batch_db w) ?w0
          = (Returned 0,
             (after_insert gss st p w1)
                  \<lparr>log := log w1 @ run_log p outcome lines @ [patch_failed_msg n],
                   db_calls := db_calls w1 @ [insert_call gss st p, TrRollback],
                   glove_pg := glove_pg w\<rparr>)"
    using loop_append [OF loop_pre, of "p # post"] step_run_fail [OF rec m1 new b bad']
    by (simp add: el)
  with run_migrations_unlocked [OF ne free, of gss st lv] run
  show ?thesis
    by (auto simp: finish_def called_def after_insert_def c1 d1)
qed

lemma example_transaction:
  "transaction_after no_sections test_settings True [insert_org, ok_patch, error_patch] wiped_db
     [insert_org, ok_patch]
   = Some \<lparr>migrations =
             Some [\<lparr>row_id = 1, row_patch_name = ''insert_org'', row_auto_ref = ''orgs'',
                    row_sql_section_name = ''-'', row_sql_section_content = ''-''\<rparr>,
                   \<lparr>row_id = 2, row_patch_name = ''ok_patch'', row_auto_ref = ''foobar'',
                    row_sql_section_name = ''-'', row_sql_section_content = ''-''\<rparr>],
           app = 1\<rparr>"
  by (simp add: transaction_after_def batch_db_def batch_world_def eligible_def
        insert_org_def ok_patch_def error_patch_def wiped_db_def
        execute_migrations_table_def fetchval_insert_def resolve_section_def run_patch_eq
        called_def logged_def identity_def Let_def)

theorem batch_is_atomic_witness:
  "fst (run_migrations no_sections test_settings [insert_org, ok_patch, error_patch] True wiped_db)
     = Inr 0
   \<and> committed (snd (run_migrations no_sections test_settings
                       [insert_org, ok_patch, error_patch] True wiped_db))
     = \<lparr>migrations = None, app = 0\<rparr>
   \<and> glove_pg (snd (run_migrations no_sections test_settings
                       [insert_org, ok_patch, error_patch] True wiped_db))
     = Some (PgPool ''app'')
   \<and> db_calls (snd (run_migrations no_sections test_settings
                       [insert_org, ok_patch, error_patch] True wiped_db))
     = opening_calls test_settings
       @ map (insert_call no_sections test_settings) [insert_org, ok_patch, error_patch]
       @ [TrRollback, Close]"
proof -
  have h1: "eligible [insert_org, ok_patch, error_patch] = [insert_org, ok_patch] @ error_patch # []"
    by (simp add: example_facts)
  have h2: "\<not> lock_held_elsewhere wiped_db" by (simp add: wiped_db_def)
  have h4: "patch_key no_sections test_settings error_patch
              \<notin> ledger_keys
                  \<lparr>migrations =
                     Some [\<lparr>row_id = 1, row_patch_name = ''insert_org'', row_auto_ref = ''orgs'',
                            row_sql_section_name = ''-'', row_sql_section_content = ''-''\<rparr>,
                           \<lparr>row_id = 2, row_patch_name = ''ok_patch'',
                            row_auto_ref = ''foobar'', row_sql_section_name = ''-'',
                            row_sql_section_content = ''-''\<rparr>],
                   app = (1::nat)\<rparr>"
    by (simp add: example_facts ledger_keys_def identity_def)
  have h5: "isl (fst (body_of (func error_patch)
                        (patch_kwargs (BuildPgConnection (pg_dsn test_settings)) True)
                        (app \<lparr>migrations =
                     Some [\<lparr>row_id = 1, row_patch_name = ''insert_org'', row_auto_ref = ''orgs'',
                            row_sql_section_name = ''-'', row_sql_section_content = ''-''\<rparr>,
                           \<lparr>row_id = 2, row_patch_name = ''ok_patch'',
                            row_auto_ref = ''foobar'', row_sql_section_name = ''-'',
                            row_sql_section_content = ''-''\<rparr>],
                   app = (1::nat)\<rparr>)))"
    by (simp add: error_patch_def)
  from batch_is_atomic [OF h1 h2 example_transaction example_facts(5) h4 h5
                          prod.collapse [symmetric]]
  show ?thesis by (simp add: wiped_db_def calls_during_def)
qed

text \<open>
  The statement of C1 itself, for every list that contains an eligible patch whose body
  fails, does not hold when that patch is in the ledger already: it is skipped as up to
  date, its body is not run, and the batch commits. Here the body of \<open>error_patch\<close>
  raises on every state, the ledger has the row of \<open>error_patch\<close>, and the live run of
  \<open>insert_org\<close> and \<open>error_patch\<close> returns 1 and commits the row and the organisation of
  \<open>insert_org\<close>.
\<close>

theorem batch_commits_past_recorded_failing_patch_counterexample:
  "eligible [insert_org, error_patch] = [insert_org, error_patch]
   \<and> fails (BuildPgConnection (pg_dsn test_settings)) True error_patch
   \<and> fst (run_migrations no_sections test_settings [insert_org, error_patch] True
            recorded_error_db) = Inr 1
   \<and> committed (snd (run_migrations no_sections test_settings [insert_org, error_patch] True
                       recorded_error_db))
     = \<lparr>migrations =
          Some [\<lparr>row_id = 1, row_patch_name = ''error_patch'', row_auto_ref = ''foobar'',
                 row_sql_section_name = ''-'', row_sql_section_content = ''-''\<rparr>,
                \<lparr>row_id = 2, row_patch_name = ''insert_org'', row_auto_ref = ''orgs'',
                 row_sql_section_name = ''-'', row_sql_section_content = ''-''\<rparr>],
        app = 1\<rparr>
   \<and> committed recorded_error_db
     = \<lparr>migrations =
          Some [\<lparr>row_id = 1, row_patch_name = ''error_patch'', row_auto_ref = ''foobar'',
                 row_sql_section_name = ''-'', row_sql_section_content = ''-''\<rparr>],
        app = 0\<rparr>"
  by (simp add: run_migrations_def eligible_def fails_def insert_org_def error_patch_def
        recorded_error_db_def execute_migrations_table_def execute_lock_table_nowait_def
        fetchval_insert_def resolve_section_def run_patch_eq called_def logged_def
        identity_def Let_def)

text \<open>
  C2, as amended. Let the patches that the run looks at be unrecorded (their identities
  are pairwise distinct and none is in the ledger), let their inserts not raise, let the
  body of each return when it is run on the data the one before it left, and let the
  lock be free. Then \<^verbatim>\<open>run_migrations\<close> with \<^verbatim>\<open>live=False\<close> runs the body of every
  one of them, in the order of the list: between the line that it checks the patches and
  the summary, the log has, for each patch in turn, the banner, the lines its body
  logged on that data, its result and the closing banner. The call returns the number of
  the patches and ends the transaction with a rollback: the committed database is what
  it was, so a ledger table that did not exist before does not exist after.
\<close>

theorem dry_run_counts_and_discards:
  assumes free: "\<not> lock_held_elsewhere w"
    and rec: "\<forall>q\<in>set (eligible patches). recordable gss st q"
    and new: "unrecorded gss st (eligible patches) (committed w)"
    and ok: "all_return (BuildPgConnection (pg_dsn st)) False (eligible patches)
               (app (committed w))"
    and run: "run_migrations gss st patches False w = (r, w')"
  shows "r = Inr (length (eligible patches)) \<and> committed w' = committed w
         \<and> (migrations (committed w) = None \<longrightarrow> migrations (committed w') = None)
         \<and> glove_pg w' = glove_pg w
         \<and> log w'
             = (if eligible patches = [] then log w
                else log w @ [checking_msg (length (eligible patches))]
                       @ bodies_log (BuildPgConnection (pg_dsn st)) False (eligible patches)
                           (app (committed w))
                       @ [dry_summary (length (eligible patches)) 0])
         \<and> calls_during w w'
             = (if eligible patches = [] then []
                else opening_calls st @ map (insert_call gss st) (eligible patches)
                       @ [TrRollback, Close])"
proof (cases "eligible patches = []")
  case True
  with run run_migrations_nothing [OF True, of gss st False w] show ?thesis
    by (auto simp: calls_during_def)
next
  case ne: False
  let ?c = "BuildPgConnection (pg_dsn st)"
  let ?w0 = "batch_world st (length (eligible patches)) w"
  obtain rows where m0: "migrations (batch_db w) = Some rows"
    using batch_db_exists by blast
  from new have new0: "unrecorded gss st (eligible patches) (batch_db w)"
    by (simp add: unrecorded_def)
  from ok have ok0: "all_return ?c False (eligible patches) (app (batch_db w))" by simp
  from loop_all_new [OF rec new0 ok0 m0, of "glove_pg w" 0 0 ?w0]
  obtain tx1 w1 where
    loop: "patch_loop gss st ?c False (glove_pg w) (eligible patches) 0 0 (batch_db w) ?w0
             = (Finished (length (eligible patches)) 0 tx1, w1)"
    and l1: "log w1 = log w @ [checking_msg (length (eligible patches))]
                       @ bodies_log ?c False (eligible patches) (app (committed w))"
    and d1: "db_calls w1
               = db_calls w @ opening_calls st @ map (insert_call gss st) (eligible patches)"
    and c1: "committed w1 = committed w"
    by auto
  from run_migrations_unlocked [OF ne free, of gss st False] run loop
  have r: "r = Inr (length (eligible patches))"
    and w': "w' = called Close (logged (dry_summary (length (eligible patches)) 0)
                  (called TrRollback (w1\<lparr>glove_pg := glove_pg w\<rparr>)))"
    by (auto simp: finish_def)
  show ?thesis
    using r c1 d1 l1 ne unfolding w'
    by (auto simp: called_def logged_def)
qed

theorem dry_run_counts_and_discards_witness:
  "fst (run_migrations no_sections test_settings [insert_org, ok_patch] False wiped_db) = Inr 2
   \<and> committed (snd (run_migrations no_sections test_settings [insert_org, ok_patch] False
                       wiped_db))
     = \<lparr>migrations = None, app = 0\<rparr>
   \<and> glove_pg (snd (run_migrations no_sections test_settings [insert_org, ok_patch] False
                       wiped_db))
     = Some (PgPool ''app'')
   \<and> log (snd (run_migrations no_sections test_settings [insert_org, ok_patch] False
                  wiped_db))
     = [checking_msg 2,
        running_banner insert_org,
        log_msg INFO (banner '' insert_org succeeded ''),
        running_banner ok_patch,
        log_msg INFO ''result: hello'',
        log_msg INFO (banner '' ok_patch succeeded ''),
        dry_summary 2 0]
   \<and> db_calls (snd (run_migrations no_sections test_settings [insert_org, ok_patch] False
                       wiped_db))
     = opening_calls test_settings
       @ map (insert_call no_sections test_settings) [insert_org, ok_patch]
       @ [TrRollback, Close]"
proof -
  have h1: "\<not> lock_held_elsewhere wiped_db" by (simp add: wiped_db_def)
  have h2: "\<forall>q\<in>set (eligible [insert_org, ok_patch]). recordable no_sections test_settings q"
    by (simp add: example_facts)
  have h3: "unrecorded no_sections test_settings (eligible [insert_org, ok_patch])
              (committed wiped_db)"
    by (simp add: example_facts unrecorded_def ledger_keys_def wiped_db_def)
  have h4: "all_return (BuildPgConnection (pg_dsn test_settings)) False
              (eligible [insert_org, ok_patch]) (app (committed wiped_db))"
    unfolding example_facts(2) by (simp add: insert_org_def ok_patch_def)
  have l: "bodies_log (BuildPgConnection (pg_dsn test_settings)) False [insert_org, ok_patch] 0
           = [running_banner insert_org,
              log_msg INFO (banner '' insert_org succeeded ''),
              running_banner ok_patch,
              log_msg INFO ''result: hello'',
              log_msg INFO (banner '' ok_patch succeeded '')]"
    by (simp add: run_log_def epilogue_def insert_org_def ok_patch_def)
  from dry_run_counts_and_discards [OF h1 h2 h3 h4 prod.collapse [symmetric]]
  show ?thesis
    by (simp add: example_facts wiped_db_def calls_during_def l numeral_2_eq_2
          del: bodies_log.simps)
qed

text \<open>
  The statement of C2 itself, for every list of passing eligible patches, fails when two
  patches of the list have the same identity: \<^verbatim>\<open>ok_patch\<close> twice is a list of two
  passing eligible patches, and the dry run on a database without the table returns 1,
  the second one being found in the ledger by then.
\<close>

theorem dry_run_duplicate_counterexample:
  "eligible [ok_patch, ok_patch] = [ok_patch, ok_patch]
   \<and> passes (BuildPgConnection (pg_dsn test_settings)) False ok_patch
   \<and> migrations (committed wiped_db) = None
   \<and> fst (run_migrations no_sections test_settings [ok_patch, ok_patch] False wiped_db) = Inr 1
   \<and> length [ok_patch, ok_patch] = 2"
  by (simp add: run_migrations_def eligible_def passes_def ok_patch_def wiped_db_def
        execute_migrations_table_def execute_lock_table_nowait_def fetchval_insert_def
        resolve_section_def run_patch_eq called_def logged_def identity_def Let_def)

lemma committed_run:
  assumes run: "run_migrations gss st patches lv w = (r1, w1)"
    and commits: "TrCommit \<in> set (calls_during w w1)"
  shows "\<forall>q\<in>set (eligible patches).
           recordable gss st q \<and> patch_key gss st q \<in> ledger_keys (committed w1)"
    and "\<exists>rows. migrations (committed w1) = Some rows"
    and "\<not> lock_held_elsewhere w1" and "eligible patches \<noteq> []" and "lv"
    and "\<exists>n. r1 = Inr n" and "glove_pg w1 = glove_pg w"
proof -
  let ?c = "BuildPgConnection (pg_dsn st)"
  let ?ps = "eligible patches"
  let ?w0 = "batch_world st (length ?ps) w"
  show ne: "?ps \<noteq> []"
  proof
    assume "?ps = []"
    from run_migrations_nothing [OF this, of gss st lv w] run commits
    show False by (simp add: calls_during_def)
  qed
  have free: "\<not> lock_held_elsewhere w"
  proof
    assume "lock_held_elsewhere w"
    from run_migrations_locked [OF ne this, of gss st lv] run commits
    show False by (auto simp: calls_during_def opening_calls_def)
  qed
  obtain ex w6 where loop:
    "patch_loop gss st ?c lv (glove_pg w) ?ps 0 0 (batch_db w) ?w0 = (ex, w6)"
    by (rule prod.exhaust)
  from patch_loop_frame [OF loop] obtain cs where
    d6: "db_calls w6 = db_calls w @ opening_calls st @ cs" and cs: "TrCommit \<notin> set cs"
    and l6: "lock_held_elsewhere w6 = lock_held_elsewhere w"
    by auto
  have fin: "run_migrations gss st patches lv w = finish lv (glove_pg w) (ex, w6)"
    using run_migrations_unlocked [OF ne free, of gss st lv] loop by simp
  obtain n u tx1 where ex: "ex = Finished n u tx1"
  proof (cases ex)
    case (Finished n u tx1)
    then show ?thesis by (rule that)
  next
    case (Returned k)
    with fin run commits d6 cs show ?thesis
      by (auto simp: finish_def called_def calls_during_def opening_calls_def)
  next
    case (Raised e)
    with fin run commits d6 cs show ?thesis
      by (auto simp: finish_def called_def calls_during_def opening_calls_def)
  qed
  show lv: "lv"
  proof (rule ccontr)
    assume "\<not> lv"
    with fin run commits d6 cs ex show False
      by (auto simp: finish_def called_def logged_def calls_during_def opening_calls_def)
  qed
  from fin run ex lv have w1: "w1 = called Close (logged (live_summary n u)
                  ((called TrCommit (w6\<lparr>glove_pg := glove_pg w\<rparr>))\<lparr>committed := tx1\<rparr>))"
    and r1: "r1 = Inr n"
    by (simp_all add: finish_def)
  from r1 show "\<exists>n. r1 = Inr n" by blast
  have c1: "committed w1 = tx1"
    unfolding w1 by (simp add: called_def logged_def)
  show "\<not> lock_held_elsewhere w1" and "glove_pg w1 = glove_pg w"
    using l6 free unfolding w1 by (simp_all add: called_def logged_def)
  obtain rows where m0: "migrations (batch_db w) = Some rows"
    using batch_db_exists by blast
  from loop_finished [OF loop [unfolded ex] m0] c1
  show "\<forall>q\<in>set ?ps. recordable gss st q \<and> patch_key gss st q \<in> ledger_keys (committed w1)"
    and "\<exists>rows. migrations (committed w1) = Some rows" by auto
qed

text \<open>A live run of \<open>ok_patch\<close> alone on the database without the table, evaluated.\<close>

lemma live_run_ok_patch:
  "committed (snd (run_migrations no_sections test_settings [ok_patch] True wiped_db))
       = \<lparr>migrations = Some [\<lparr>row_id = 1, row_patch_name = ''ok_patch'',
                               row_auto_ref = ''foobar'', row_sql_section_name = ''-'',
                               row_sql_section_content = ''-''\<rparr>],
          app = 0\<rparr>"
  "db_calls (snd (run_migrations no_sections test_settings [ok_patch] True wiped_db))
     = opening_calls test_settings
              @ [insert_call no_sections test_settings ok_patch, TrCommit, Close]"
  "fst (run_migrations no_sections test_settings [ok_patch] True wiped_db) = Inr 1"
  by (simp_all add: run_migrations_def eligible_def ok_patch_def wiped_db_def
        execute_migrations_table_def execute_lock_table_nowait_def fetchval_insert_def
        resolve_section_def run_patch_eq called_def logged_def identity_def Let_def
        opening_calls_def insert_call_def section_content_def migrations_table_def)

text \<open>
  C5. Let a first call with \<^verbatim>\<open>live=True\<close> succeed, that is, commit its transaction,
  and let a second call with the same settings, the same list and \<^verbatim>\<open>live=True\<close>
  follow it. The second call returns 0 and leaves the committed database as the first
  one left it, so the ledger has the rows it had. It runs no patch body: all it logs is
  the line that it checks the patches and the line that none was run and all are up to
  date, and between taking the lock and committing it makes one insert for each patch
  and nothing else. Each of these inserts finds the identity of its patch in the ledger
  and returns \<open>None\<close>.
\<close>

theorem second_run_is_a_no_op:
  assumes first: "run_migrations gss st patches True w = (r1, w1)"
    and commits: "TrCommit \<in> set (calls_during w w1)"
    and second: "run_migrations gss st patches True w1 = (r2, w2)"
  shows "r2 = Inr 0 \<and> committed w2 = committed w1
         \<and> log w2 = log w1 @ [checking_msg (length (eligible patches)),
                                live_summary 0 (length (eligible patches))]
         \<and> calls_during w1 w2
             = opening_calls st @ map (insert_call gss st) (eligible patches) @ [TrCommit, Close]
         \<and> (\<forall>q\<in>set (eligible patches). \<forall>w'.
               fst (fetchval_insert (dunder_name (func q)) (auto_ref q)
                      (or_dash (auto_ref_sql_section q)) (section_content gss st q)
                      (committed w1) w') = Inr None)"
proof -
  let ?c = "BuildPgConnection (pg_dsn st)"
  let ?ps = "eligible patches"
  note cr = committed_run [OF first commits]
  from cr(1) have rec:
    "\<forall>q\<in>set ?ps. recordable gss st q \<and> patch_key gss st q \<in> ledger_keys (committed w1)" .
  from cr(2) obtain rows1 where m1: "migrations (committed w1) = Some rows1" by blast
  note free1 = cr(3) and ne = cr(4)
  have b1: "batch_db w1 = committed w1"
    using batch_db_idem [OF m1] .
  let ?w0' = "batch_world st (length ?ps) w1"
  from loop_up_to_date [OF rec m1, of ?c True "glove_pg w1" 0 0 ?w0']
  obtain w7 where loop2:
    "patch_loop gss st ?c True (glove_pg w1) ?ps 0 0 (committed w1) ?w0'
       = (Finished 0 (length ?ps) (committed w1), w7)"
    and l7: "log w7 = log w1 @ [checking_msg (length ?ps)]"
    and d7: "db_calls w7 = db_calls w1 @ opening_calls st @ map (insert_call gss st) ?ps"
    by auto
  from run_migrations_unlocked [OF ne free1, of gss st True] loop2 second b1
  have r2: "r2 = Inr 0" and w2: "w2 = called Close (logged (live_summary 0 (length ?ps))
            ((called TrCommit (w7\<lparr>glove_pg := glove_pg w1\<rparr>))\<lparr>committed := committed w1\<rparr>))"
    by (auto simp: finish_def)
  have ins: "\<forall>q\<in>set ?ps. \<forall>w'.
               fst (fetchval_insert (dunder_name (func q)) (auto_ref q)
                      (or_dash (auto_ref_sql_section q)) (section_content gss st q)
                      (committed w1) w') = Inr None"
  proof (intro ballI allI)
    fix q w'
    assume "q \<in> set ?ps"
    with rec have rq: "recordable gss st q"
      and kq: "patch_key gss st q \<in> ledger_keys (committed w1)"
      by auto
    from rq obtain content where r: "resolve_section gss st q = Inr content"
      by (rule recordable_resolves)
    from insert_conflict [OF rq m1 kq r, of w'] r
    show "fst (fetchval_insert (dunder_name (func q)) (auto_ref q)
                      (or_dash (auto_ref_sql_section q)) (section_content gss st q)
                      (committed w1) w') = Inr None"
      by (simp add: section_content_def)
  qed
  show ?thesis
    using r2 l7 d7 ins unfolding w2
    by (simp add: called_def logged_def)
qed

theorem second_run_is_a_no_op_witness:
  "fst (run_migrations no_sections test_settings [ok_patch] True
          (snd (run_migrations no_sections test_settings [ok_patch] True wiped_db))) = Inr 0
   \<and> committed (snd (run_migrations no_sections test_settings [ok_patch] True
          (snd (run_migrations no_sections test_settings [ok_patch] True wiped_db))))
       = \<lparr>migrations = Some [\<lparr>row_id = 1, row_patch_name = ''ok_patch'',
                               row_auto_ref = ''foobar'', row_sql_section_name = ''-'',
                               row_sql_section_content = ''-''\<rparr>],
          app = 0\<rparr>"
proof -
  have e: "db_calls wiped_db = []" by (simp add: wiped_db_def)
  have h: "TrCommit \<in> set (calls_during wiped_db
             (snd (run_migrations no_sections test_settings [ok_patch] True wiped_db)))"
    by (simp add: live_run_ok_patch e calls_during_def)
  from second_run_is_a_no_op [OF prod.collapse [symmetric] h prod.collapse [symmetric]]
  show ?thesis by (simp add: live_run_ok_patch)
qed




text \<open>
  \<^verbatim>\<open>run_migrations\<close> sets \<^verbatim>\<open>glove.pg\<close> back before each of the two \<^verbatim>\<open>return\<close>
  statements that follow the swap. So whenever the function returns, \<^verbatim>\<open>glove.pg\<close> has
  the value it had.
\<close>

lemma glove_pg_restored_on_return:
  assumes "run_migrations gss st patches lv w = (Inr n, w')"
  shows "glove_pg w' = glove_pg w"
proof (cases "eligible patches = []")
  case True
  from run_migrations_nothing [OF this, of gss st lv w] assms show ?thesis by simp
next
  case ne: False
  show ?thesis
  proof (cases "lock_held_elsewhere w")
    case True
    from run_migrations_locked [OF ne this, of gss st lv] assms show ?thesis by auto
  next
    case False
    obtain ex w6 where loop:
      "patch_loop gss st (BuildPgConnection (pg_dsn st)) lv (glove_pg w) (eligible patches)
         0 0 (batch_db w) (batch_world st (length (eligible patches)) w) = (ex, w6)"
      by (rule prod.exhaust)
    from patch_loop_frame [OF loop] run_migrations_unlocked [OF ne False, of gss st lv]
      loop assms
    show ?thesis
      by (cases ex) (auto simp: finish_def called_def logged_def split: if_splits)
  qed
qed

text \<open>
  C9. The claim is that \<^verbatim>\<open>glove.pg\<close> is restored on every way out of
  \<^verbatim>\<open>run_migrations\<close>, the one on which \<^verbatim>\<open>get_sql_section\<close> raises included. There
  is no \<^verbatim>\<open>try\<close> around the loop, so on that way out nothing sets it back: here the
  only patch names a section that the provider does not find, the exception leaves the
  function, \<^verbatim>\<open>AsyncPgContext\<close> closes the connection without a commit, and
  \<^verbatim>\<open>glove.pg\<close>, which was the pool of the application, is left as the
  \<^verbatim>\<open>DummyPgPool\<close> around the closed connection.
\<close>

theorem glove_pg_not_restored_when_section_lookup_raises:
  "fst (run_migrations no_sections test_settings [missing_section_patch] True wiped_db)
     = Inl (Fault RuntimeError ''section not found'')
   \<and> glove_pg wiped_db = Some (PgPool ''app'')
   \<and> glove_pg (snd (run_migrations no_sections test_settings [missing_section_patch] True
                       wiped_db))
     = Some (DummyPgPool (BuildPgConnection (pg_dsn test_settings)))
   \<and> db_calls (snd (run_migrations no_sections test_settings [missing_section_patch] True
                       wiped_db))
     = [Connect (pg_dsn test_settings), TrStart, Execute migrations_table,
        Execute LockTableMigrationsNowait, Close]"
  by (simp add: run_migrations_def eligible_def missing_section_patch_def ok_patch_def
        no_sections_def wiped_db_def execute_migrations_table_def
        execute_lock_table_nowait_def resolve_section_def called_def logged_def Let_def)

section \<open>The repository's tests, replayed\<close>

text \<open>
  \<^verbatim>\<open>test_run_migrations_error\<close>: a passing patch and a failing one. The call returns 0,
  the table \<^verbatim>\<open>migrations\<close> does not exist afterwards, and the log has the eight
  messages the test expects.
\<close>

lemma str_nat_digits:
  "str_nat 0 = ''0''" "str_nat (Suc 0) = ''1''" "str_nat (Suc (Suc 0)) = ''2''"
  by code_simp+

lemma test_run_migrations_error:
  "fst (run_migrations no_sections test_settings [ok_patch, error_patch] True wiped_db) = Inr 0"
  "migrations (committed (snd (run_migrations no_sections test_settings
                                 [ok_patch, error_patch] True wiped_db))) = None"
  "map message (log (snd (run_migrations no_sections test_settings
                            [ok_patch, error_patch] True wiped_db)))
     = [''checking 2 migration patches...'',
        ''---------------- running ok_patch ----------------'',
        ''result: hello'',
        ''--------------- ok_patch succeeded ---------------'',
        ''-------------- running error_patch ---------------'',
        ''--------------- error_patch failed ---------------'',
        ''Error running error_patch migration patch'',
        ''patch failed, rolling back all 1 migration patches in this session'']"
  by (simp_all add: run_migrations_def eligible_def ok_patch_def error_patch_def wiped_db_def
        execute_migrations_table_def execute_lock_table_nowait_def fetchval_insert_def
        resolve_section_def run_patch_eq called_def logged_def identity_def Let_def
        epilogue_def log_msg_def log_exception_def str_nat_digits
        banner_running_ok_patch banner_ok_patch_succeeded
        banner_running_error_patch banner_error_patch_failed)

text \<open>
  \<^verbatim>\<open>test_run_migrations_ok\<close>: its patch is a coroutine function that logs a line and
  returns \<^verbatim>\<open>None\<close>. The first call returns 1 and leaves one row, the second returns 0
  and leaves that row, and a third call made while another transaction holds the lock
  returns 0; the log has the eight messages the test expects.
\<close>

lemma test_run_migrations_ok:
  "fst (run_migrations no_sections test_settings [logging_ok_patch] True wiped_db) = Inr 1"
  "migrations (committed (snd (run_migrations no_sections test_settings [logging_ok_patch] True
                                 wiped_db)))
     = Some [\<lparr>row_id = 1, row_patch_name = ''ok_patch'', row_auto_ref = ''foobar'',
              row_sql_section_name = ''-'', row_sql_section_content = ''-''\<rparr>]"
  "fst (run_migrations no_sections test_settings [logging_ok_patch] True
          (snd (run_migrations no_sections test_settings [logging_ok_patch] True wiped_db)))
     = Inr 0"
  "map message (log (snd (run_migrations no_sections test_settings [logging_ok_patch] True
          ((snd (run_migrations no_sections test_settings [logging_ok_patch] True
             (snd (run_migrations no_sections test_settings [logging_ok_patch] True wiped_db))))
           \<lparr>lock_held_elsewhere := True\<rparr>))))
     = [''checking 1 migration patches...'',
        ''---------------- running ok_patch ----------------'',
        ''running ok_patch'',
        ''--------------- ok_patch succeeded ---------------'',
        ''1 migration patches run, 0 already up to date '' @ check_mark,
        ''checking 1 migration patches...'',
        ''0 migration patches run, 1 already up to date '' @ check_mark,
        ''another transaction has locked migrations, skipping migrations here'']"
  by (simp_all add: run_migrations_def eligible_def logging_ok_patch_def wiped_db_def
        execute_migrations_table_def execute_lock_table_nowait_def fetchval_insert_def
        resolve_section_def run_patch_eq called_def logged_def identity_def Let_def
        epilogue_def log_msg_def log_exception_def str_nat_digits
        banner_running_ok_patch banner_ok_patch_succeeded)

end
